theory Spec2Isabelle
  imports Complex_Main
begin

section \<open>Cyber Coliseum: the simulation engine\<close>

text \<open>
  A shallow embedding of the namespace \<^verbatim>\<open>Battle\<close> of the coliseum source: the entity
  classes, the environment builder, the collision resolver, bounds enforcement and the
  fixed-step scheduler \<^verbatim>\<open>Coliseum.updateEntities\<close>.

  JavaScript numbers are modelled as mathematical reals (positions, directions, speeds,
  radii) and as integers where the source only counts (timers, health, damage); rounding,
  NaN and signed zeros are outside the model. Objects live in a store indexed by
  references, because the resolver and the environment builder compare entities by
  identity (\<^verbatim>\<open>a !== b\<close>, \<^verbatim>\<open>e.source !== self\<close>) and mutate them in place while scanning the
  live set. A thrown exception is a value: a step that throws hands back the store as the
  exception leaves it. The colours, which only the drawing code reads, are left out.
\<close>

subsection \<open>Data model\<close>

datatype CollisionClass = solid | massless

record Position =
  x :: real
  y :: real

record Circle = Position +
  radius :: real

text \<open>The interface types of \<^verbatim>\<open>coliseum-interface\<close>, as the type declarations give them.\<close>

record RobotState = Circle +
  shootDirection :: real
  moveDirection :: real
  move :: bool
  shoot :: bool

record EnemyState = Circle +
  direction :: "real option"
  speed :: real

record ProjectileState = Position +
  direction :: real
  speed :: real

record Bounds =
  xMin :: real
  xMax :: real
  yMin :: real
  yMax :: real

record Environment =
  bounds :: Bounds
  enemy :: "EnemyState option"
  enemyProjectiles :: "ProjectileState list"

text \<open>
  A think handler is a closure: besides working on the robot state it is handed, it may
  keep private state between calls. Invoking it yields the robot state as the handler
  left it (\<open>None\<close> when the handler threw) and the closure to invoke next time.
\<close>

codatatype BotThinkHandler =
  BotThinkHandler (invoke: "RobotState \<Rightarrow> Environment \<Rightarrow> RobotState option \<times> BotThinkHandler")

datatype EntityClass = IsMovingEntity | IsProjectile | IsShot | IsShip | IsBot

text \<open>
  One record for the class hierarchy \<^verbatim>\<open>MovingEntity\<close>, \<^verbatim>\<open>Projectile\<close>/\<^verbatim>\<open>Shot\<close>,
  \<^verbatim>\<open>Ship\<close>/\<^verbatim>\<open>Bot\<close>; \<open>cls\<close> is the class of the object and decides which methods run and
  what the duck-typing tests (\<^verbatim>\<open>"damage" in a\<close>, \<^verbatim>\<open>"initialize" in a\<close>) answer. The fields of a
  class the object does not belong to are never read.
\<close>

record MovingEntity = Circle +
  cls :: EntityClass
  dead :: bool
  collisionClass :: CollisionClass
  speed :: real
  moveDirection :: real
  shootDirection :: real
  move :: bool
  source :: nat
  damage :: int
  shootTimer :: int
  health :: int
  shoot :: bool
  shootPeriod :: int
  thinkHandler :: BotThinkHandler
  initialize :: nat

datatype SimulationResult = tie | leftWins | rightWins

record Coliseum =
  heap :: "nat \<Rightarrow> MovingEntity"
  nextRef :: nat
  entities :: "nat list"
  startTimer :: int
  endTimer :: int
  result :: "SimulationResult option"
  propsLeft :: nat
  hooked :: bool

datatype ('s, 'a) completion = Threw 's | Returned 'a

subsection \<open>Geometry\<close>

definition getDistance :: "'a Position_scheme \<Rightarrow> 'b Position_scheme \<Rightarrow> real" where
  "getDistance a b = sqrt ((x a - x b) * (x a - x b) + (y a - y b) * (y a - y b))"

text \<open>\<^verbatim>\<open>Math.atan2(dy, dx)\<close>: the angle of the point \<open>(dx, dy)\<close>, in \<open>(-\<pi>, \<pi>]\<close>, and 0 at the origin.\<close>

definition atan2 :: "real \<Rightarrow> real \<Rightarrow> real" where
  "atan2 dy dx =
     (if 0 < dx then arctan (dy / dx)
      else if dx < 0 then (if 0 \<le> dy then arctan (dy / dx) + pi else arctan (dy / dx) - pi)
      else if 0 < dy then pi / 2
      else if dy < 0 then - (pi / 2)
      else 0)"

definition maxDistance :: real where
  "maxDistance = 10"

definition shotRadius :: real where
  "shotRadius = 0.15"

definition environmentBounds :: Bounds where
  "environmentBounds =
     \<lparr> xMin = - maxDistance, xMax = maxDistance, yMin = - maxDistance, yMax = maxDistance \<rparr>"

subsection \<open>Entities\<close>

definition isEntity :: "MovingEntity \<Rightarrow> bool" where
  "isEntity a = True"

definition isScriptable :: "MovingEntity \<Rightarrow> bool" where
  "isScriptable a = True"

definition isMovingEntity :: "MovingEntity \<Rightarrow> bool" where
  "isMovingEntity a = True"

definition isProjectile :: "MovingEntity \<Rightarrow> bool" where
  "isProjectile a = (cls a = IsProjectile \<or> cls a = IsShot)"

definition isBot :: "MovingEntity \<Rightarrow> bool" where
  "isBot a = (cls a = IsBot)"

text \<open>Whether the methods of \<^verbatim>\<open>Ship\<close> are the ones the object runs.\<close>

definition isShip :: "MovingEntity \<Rightarrow> bool" where
  "isShip a = (cls a = IsShip \<or> cls a = IsBot)"

primcorec noHandler :: BotThinkHandler where
  "invoke noHandler = (\<lambda>state environment. (Some state, noHandler))"

text \<open>\<^verbatim>\<open>new Shot(source, x, y, moveDirection)\<close>; the last six fields belong to \<^verbatim>\<open>Ship\<close> and \<^verbatim>\<open>Bot\<close>.\<close>

definition newShot :: "nat \<Rightarrow> real \<Rightarrow> real \<Rightarrow> real \<Rightarrow> MovingEntity" where
  "newShot src sx sy dir =
     \<lparr> x = sx, y = sy, radius = shotRadius, cls = IsShot, dead = False,
       collisionClass = massless, speed = 0.5, moveDirection = dir, shootDirection = dir,
       move = True, source = src, damage = 10,
       shootTimer = 0, health = 0, shoot = False, shootPeriod = 0,
       thinkHandler = noHandler, initialize = 0 \<rparr>"

text \<open>\<^verbatim>\<open>new Bot(x, y, initialize)\<close>, with the handler that \<^verbatim>\<open>initialize()\<close> returned.\<close>

definition newBot :: "real \<Rightarrow> real \<Rightarrow> nat \<Rightarrow> BotThinkHandler \<Rightarrow> MovingEntity" where
  "newBot px py init handler =
     \<lparr> x = px, y = py, radius = 1, cls = IsBot, dead = False,
       collisionClass = solid, speed = 0.2, moveDirection = 0, shootDirection = 0,
       move = False, source = 0, damage = 0,
       shootTimer = 0, health = 100, shoot = False, shootPeriod = 10,
       thinkHandler = handler, initialize = init \<rparr>"

text \<open>\<^verbatim>\<open>MovingEntity.update\<close>: motion integration.\<close>

definition update :: "MovingEntity \<Rightarrow> MovingEntity" where
  "update this =
     (if move this
      then this\<lparr> x := x this + speed this * cos (moveDirection this),
                 y := y this + speed this * sin (moveDirection this) \<rparr>
      else this)"

text \<open>\<^verbatim>\<open>collidedInternal\<close>: \<^verbatim>\<open>Ship\<close> overrides the empty method of \<^verbatim>\<open>MovingEntity\<close>.\<close>

definition collidedInternal :: "MovingEntity \<Rightarrow> MovingEntity \<Rightarrow> MovingEntity" where
  "collidedInternal this other =
     (if isShip this
      then (if isProjectile other
            then (let h = health this - damage other
                  in this\<lparr> health := h, dead := (h \<le> 0) \<rparr>)
            else this)
      else this)"

text \<open>\<^verbatim>\<open>a.collided(b)\<close> on the store: \<open>b\<close> is marked dead, then \<open>a\<close> reacts.\<close>

definition collided :: "nat \<Rightarrow> nat \<Rightarrow> (nat \<Rightarrow> MovingEntity) \<Rightarrow> (nat \<Rightarrow> MovingEntity)" where
  "collided a b h =
     (if isEntity (h b)
      then (let h1 = h(b := (h b)\<lparr> dead := True \<rparr>)
            in h1(a := collidedInternal (h1 a) (h1 b)))
      else h)"

text \<open>
  \<^verbatim>\<open>Bot.think\<close> (the \<^verbatim>\<open>think\<close> of a plain \<^verbatim>\<open>Ship\<close> does nothing). When the handler throws,
  nothing is copied back.
\<close>

definition think :: "MovingEntity \<Rightarrow> Environment \<Rightarrow> (MovingEntity, MovingEntity) completion" where
  "think this environment =
     (if isBot this
      then (let state = \<lparr> x = x this, y = y this, radius = radius this,
                          RobotState.shootDirection = shootDirection this,
                          RobotState.moveDirection = moveDirection this,
                          RobotState.move = move this,
                          RobotState.shoot = shoot this \<rparr>
            in case invoke (thinkHandler this) state environment of
                 (None, k) \<Rightarrow> Threw (this\<lparr> thinkHandler := k \<rparr>)
               | (Some state', k) \<Rightarrow>
                   Returned (this\<lparr> move := RobotState.move state',
                                   shoot := RobotState.shoot state',
                                   shootDirection := RobotState.shootDirection state',
                                   moveDirection := RobotState.moveDirection state',
                                   thinkHandler := k \<rparr>))
      else Returned this)"

subsection \<open>Environment builder\<close>

definition enforceBoundsOnCoordinate :: "real \<Rightarrow> real" where
  "enforceBoundsOnCoordinate c = max (- maxDistance) (min maxDistance c)"

definition enemyStateOf :: "MovingEntity \<Rightarrow> EnemyState" where
  "enemyStateOf e =
     (if move e
      then (let nextX = enforceBoundsOnCoordinate (x e + speed e * cos (moveDirection e));
                nextY = enforceBoundsOnCoordinate (y e + speed e * sin (moveDirection e))
            in \<lparr> x = x e, y = y e, radius = radius e,
                 EnemyState.direction = Some (atan2 (nextY - y e) (nextX - x e)),
                 EnemyState.speed = getDistance \<lparr> x = nextX, y = nextY \<rparr> e \<rparr>)
      else \<lparr> x = x e, y = y e, radius = radius e,
             EnemyState.direction = None, EnemyState.speed = 0 \<rparr>)"

definition projectileStateOf :: "MovingEntity \<Rightarrow> ProjectileState" where
  "projectileStateOf e =
     \<lparr> x = x e, y = y e, ProjectileState.direction = moveDirection e,
       ProjectileState.speed = speed e \<rparr>"

definition getEnvironment :: "Coliseum \<Rightarrow> nat \<Rightarrow> Environment" where
  "getEnvironment st self =
     \<lparr> bounds = environmentBounds,
       enemy =
         (case map (\<lambda>e. enemyStateOf (heap st e))
                 (filter (\<lambda>e. e \<noteq> self \<and> collisionClass (heap st e) = solid) (entities st))
          of [] \<Rightarrow> None | d # _ \<Rightarrow> Some d),
       enemyProjectiles =
         map (\<lambda>e. projectileStateOf (heap st e))
           (filter (\<lambda>e. isProjectile (heap st e) \<and> isMovingEntity (heap st e)
                         \<and> source (heap st e) \<noteq> self) (entities st)) \<rparr>"

subsection \<open>Bounds enforcement\<close>

definition enforceBoundsOn :: "nat \<Rightarrow> (nat \<Rightarrow> MovingEntity) \<Rightarrow> (nat \<Rightarrow> MovingEntity)" where
  "enforceBoundsOn e h =
     (if isProjectile (h e)
      then (if x (h e) < - maxDistance \<or> x (h e) > maxDistance
               \<or> y (h e) < - maxDistance \<or> y (h e) > maxDistance
            then h(e := (h e)\<lparr> dead := True \<rparr>)
            else h)
      else (let h1 = h(e := (h e)\<lparr> x := enforceBoundsOnCoordinate (x (h e)) \<rparr>)
            in h1(e := (h1 e)\<lparr> y := enforceBoundsOnCoordinate (y (h1 e)) \<rparr>)))"

definition enforceBounds :: "Coliseum \<Rightarrow> Coliseum" where
  "enforceBounds st = st\<lparr> heap := fold enforceBoundsOn (entities st) (heap st) \<rparr>"

subsection \<open>Collision resolver\<close>

definition getCollisionOverlap :: "'a Circle_scheme \<Rightarrow> 'b Circle_scheme \<Rightarrow> real" where
  "getCollisionOverlap a b =
     (let centerDistance = getDistance a b;
          overlapDistance = radius a + radius b - centerDistance
      in if overlapDistance > 0 then overlapDistance else 0)"

text \<open>The body of the inner loop, for the pair \<open>(a, b)\<close>.\<close>

definition resolvePair :: "nat \<Rightarrow> nat \<Rightarrow> (nat \<Rightarrow> MovingEntity) \<Rightarrow> (nat \<Rightarrow> MovingEntity)" where
  "resolvePair a b h =
     (if a \<noteq> b
      then (let overlapDistance = getCollisionOverlap (h a) (h b)
            in if overlapDistance > 0
               then (if collisionClass (h b) = solid
                     then (let directionAToB = atan2 (y (h b) - y (h a)) (x (h b) - x (h a));
                               dax = - overlapDistance / 2 * cos directionAToB * 1.0001;
                               day = - overlapDistance / 2 * sin directionAToB * 1.0001;
                               h1 = h(a := (h a)\<lparr> x := x (h a) + dax \<rparr>);
                               h2 = h1(a := (h1 a)\<lparr> y := y (h1 a) + day \<rparr>);
                               h3 = h2(b := (h2 b)\<lparr> x := x (h2 b) - dax \<rparr>)
                           in h3(b := (h3 b)\<lparr> y := y (h3 b) - day \<rparr>))
                     else collided a b h)
               else h)
      else h)"

text \<open>The body of the outer loop: only a solid entity scans the live set.\<close>

definition resolveFor :: "nat list \<Rightarrow> nat \<Rightarrow> (nat \<Rightarrow> MovingEntity) \<Rightarrow> (nat \<Rightarrow> MovingEntity)" where
  "resolveFor es a h = (if collisionClass (h a) = solid then fold (resolvePair a) es h else h)"

definition findAndResolveCollisions :: "Coliseum \<Rightarrow> Coliseum" where
  "findAndResolveCollisions st =
     st\<lparr> heap := fold (resolveFor (entities st)) (entities st) (heap st) \<rparr>"

subsection \<open>Behavior step\<close>

text \<open>
  \<^verbatim>\<open>updateWithEnvironment\<close> of the entity at reference \<open>e\<close>: the method of \<^verbatim>\<open>Ship\<close> for a
  \<^verbatim>\<open>Ship\<close> or \<^verbatim>\<open>Bot\<close>, the one of \<^verbatim>\<open>MovingEntity\<close> (which returns \<^verbatim>\<open>null\<close>) otherwise. The
  result is the list of the references of the spawned entities, empty for \<^verbatim>\<open>null\<close>.
\<close>

definition updateWithEnvironment :: "nat \<Rightarrow> Coliseum \<Rightarrow> (Coliseum, Coliseum \<times> nat list) completion" where
  "updateWithEnvironment e st =
     (if isShip (heap st e)
      then (case think (heap st e) (getEnvironment st e) of
              Threw this \<Rightarrow> Threw (st\<lparr> heap := (heap st)(e := this) \<rparr>)
            | Returned this \<Rightarrow>
                if shoot this \<and> shootTimer this \<le> 0
                then (let this1 = this\<lparr> shootTimer := shootPeriod this \<rparr>;
                          sx = x this1 + (radius this1 + shotRadius) * 1.001 * cos (shootDirection this1);
                          sy = y this1 + (radius this1 + shotRadius) * 1.001 * sin (shootDirection this1);
                          r = nextRef st
                      in Returned
                           (st\<lparr> heap := (heap st)(e := this1, r := newShot e sx sy (shootDirection this1)),
                                nextRef := r + 1 \<rparr>,
                            [r]))
                else if shootTimer this > 0
                then Returned (st\<lparr> heap := (heap st)(e := this\<lparr> shootTimer := shootTimer this - 1 \<rparr>) \<rparr>, [])
                else Returned (st\<lparr> heap := (heap st)(e := this) \<rparr>, []))
      else Returned (st, []))"

subsection \<open>Scheduler\<close>

text \<open>
  The loop of \<^verbatim>\<open>updateEntities\<close> over the live set: each entity is moved and, in combat,
  takes its behavior step before the loop goes on to the next entity.
\<close>

fun updateLoop :: "bool \<Rightarrow> nat list \<Rightarrow> Coliseum \<Rightarrow> nat list \<Rightarrow> (Coliseum, Coliseum \<times> nat list) completion" where
  "updateLoop inCombat [] st newEntities = Returned (st, newEntities)"
| "updateLoop inCombat (e # es) st newEntities =
     (let st1 = st\<lparr> heap := (heap st)(e := update (heap st e)) \<rparr>
      in if inCombat \<and> isScriptable (heap st1 e)
         then (case updateWithEnvironment e st1 of
                 Threw st2 \<Rightarrow> Threw st2
               | Returned (st2, res) \<Rightarrow> updateLoop inCombat es st2 (newEntities @ res))
         else updateLoop inCombat es st1 newEntities)"

definition reap :: "Coliseum \<Rightarrow> Coliseum" where
  "reap st = st\<lparr> entities := filter (\<lambda>e. \<not> dead (heap st e)) (entities st) \<rparr>"

text \<open>The end check, with the bots counted before the tick.\<close>

definition checkForEnd :: "nat list \<Rightarrow> Coliseum \<Rightarrow> Coliseum" where
  "checkForEnd bots st =
     (if \<not> (length bots > 1)
      then (if endTimer st \<le> 0
            then st\<lparr> endTimer := endTimer st - 1,
                     result := Some (if length bots = 1
                                     then (if initialize (heap st (hd bots)) = propsLeft st
                                           then leftWins else rightWins)
                                     else tie),
                     hooked := False \<rparr>
            else st\<lparr> endTimer := endTimer st - 1 \<rparr>)
      else st)"

definition updateEntities :: "Coliseum \<Rightarrow> (Coliseum, Coliseum) completion" where
  "updateEntities st =
     (if startTimer st > 0
      then Returned (st\<lparr> startTimer := startTimer st - 1 \<rparr>)
      else (let bots = filter (\<lambda>e. isBot (heap st e)) (entities st);
                inCombat = (length bots > 1)
            in case updateLoop inCombat (entities st) st [] of
                 Threw st1 \<Rightarrow> Threw st1
               | Returned (st1, newEntities) \<Rightarrow>
                   (let st2 = st1\<lparr> entities := entities st1 @ newEntities \<rparr>;
                        st3 = findAndResolveCollisions st2;
                        st4 = enforceBounds st3;
                        st5 = reap st4
                    in Returned (checkForEnd bots st5))))"

text \<open>The state a tick leaves behind, whether it returned or threw.\<close>

definition tick :: "Coliseum \<Rightarrow> Coliseum" where
  "tick st = (case updateEntities st of Threw st1 \<Rightarrow> st1 | Returned st1 \<Rightarrow> st1)"

subsection \<open>Auxiliary notions\<close>

text \<open>What bounds enforcement does to one entity.\<close>

definition boundedEntity :: "MovingEntity \<Rightarrow> MovingEntity" where
  "boundedEntity e =
     (if isProjectile e
      then e\<lparr> dead := dead e \<or> x e < - maxDistance \<or> x e > maxDistance
                    \<or> y e < - maxDistance \<or> y e > maxDistance \<rparr>
      else e\<lparr> x := enforceBoundsOnCoordinate (x e), y := enforceBoundsOnCoordinate (y e) \<rparr>)"

text \<open>A live set for the bounds phase: a shot far outside the arena and a bot beyond a corner.\<close>

definition boundsExample :: Coliseum where
  "boundsExample =
     \<lparr> heap = (\<lambda>r. newBot 12 (- 11) 1 noHandler)(0 := newShot 1 20.5 0 0),
       nextRef = 2, entities = [0, 1], startTimer = 0, endTimer = 60, result = None,
       propsLeft = 0, hooked = True \<rparr>"

text \<open>Two bots one unit apart, overlapping by one unit.\<close>

definition overlapExample :: "nat \<Rightarrow> MovingEntity" where
  "overlapExample = (\<lambda>r. newBot 1 0 1 noHandler)(0 := newBot 0 0 0 noHandler)"

text \<open>
  The handler that \<^verbatim>\<open>ColiseumEditor.createScriptedBot\<close> builds around the interpreter
  \<open>vm\<close> holding the user's script: the script works on a serialized copy, four fields of
  the result are copied into \<open>self\<close>, and an error of the script is caught. The
  interpreter, which is not part of the engine, is abstracted to what a run returns.
\<close>

primcorec customInitializer :: "BotThinkHandler \<Rightarrow> BotThinkHandler" where
  "invoke (customInitializer vm) =
     (\<lambda>self environment.
        case invoke vm self environment of
          (None, vm') \<Rightarrow> (Some self, customInitializer vm')
        | (Some resultState, vm') \<Rightarrow>
            (Some (self\<lparr> RobotState.shootDirection := RobotState.shootDirection resultState,
                          RobotState.moveDirection := RobotState.moveDirection resultState,
                          RobotState.move := RobotState.move resultState,
                          RobotState.shoot := RobotState.shoot resultState \<rparr>),
             customInitializer vm'))"

text \<open>A handler that rewrites the read-only fields too, and asks to move and shoot.\<close>

primcorec cheatingHandler :: BotThinkHandler where
  "invoke cheatingHandler =
     (\<lambda>self environment.
        (Some (self\<lparr> x := 99, y := 99, radius := 50,
                      RobotState.move := True, RobotState.shoot := True,
                      RobotState.shootDirection := pi, RobotState.moveDirection := pi \<rparr>),
         cheatingHandler))"

text \<open>A single bot run by that handler.\<close>

definition shooterExample :: Coliseum where
  "shooterExample =
     \<lparr> heap = (\<lambda>r. newBot 3 4 0 cheatingHandler),
       nextRef = 1, entities = [0], startTimer = 0, endTimer = 60, result = None,
       propsLeft = 0, hooked = True \<rparr>"

text \<open>
  A duel: a resting bot, a bot moving right next to the right wall, and a shot of each.
\<close>

definition duelExample :: Coliseum where
  "duelExample =
     \<lparr> heap = (\<lambda>r. newShot 1 5 0 pi)
                (0 := newBot (- 5) 0 0 noHandler,
                 1 := (newBot 9.9 0 1 noHandler)\<lparr> move := True \<rparr>,
                 2 := newShot 0 (- 3) 0 0),
       nextRef = 4, entities = [0, 1, 2, 3], startTimer = 0, endTimer = 60, result = None,
       propsLeft = 0, hooked = True \<rparr>"

text \<open>
  Two overlapping bots and a shot that touches the first bot from above, away from the
  line through the bots.
\<close>

definition grazingExample :: Coliseum where
  "grazingExample =
     \<lparr> heap = (\<lambda>r. newShot 1 0 1.1 0)(0 := newBot 0 0 0 noHandler, 1 := newBot 1 0 1 noHandler),
       nextRef = 3, entities = [0, 1, 2], startTimer = 0, endTimer = 60, result = None,
       propsLeft = 0, hooked = True \<rparr>"

text \<open>Two bots 2.1 apart and a shot midway between them, touching both.\<close>

definition crossfireExample :: Coliseum where
  "crossfireExample =
     \<lparr> heap = (\<lambda>r. newShot 0 1.05 0 0)(0 := newBot 0 0 0 noHandler, 1 := newBot 2.1 0 1 noHandler),
       nextRef = 3, entities = [0, 1, 2], startTimer = 0, endTimer = 60, result = None,
       propsLeft = 0, hooked = True \<rparr>"

text \<open>Two shots at the same place.\<close>

definition twoShotsExample :: Coliseum where
  "twoShotsExample =
     \<lparr> heap = (\<lambda>r. newShot 5 0 0 0),
       nextRef = 2, entities = [0, 1], startTimer = 0, endTimer = 60, result = None,
       propsLeft = 0, hooked = True \<rparr>"

text \<open>Heaps that agree on position, radius and collision class of every entity.\<close>

definition sameShape :: "(nat \<Rightarrow> MovingEntity) \<Rightarrow> (nat \<Rightarrow> MovingEntity) \<Rightarrow> bool" where
  "sameShape h h' =
     (\<forall>r. x (h' r) = x (h r) \<and> y (h' r) = y (h r) \<and> radius (h' r) = radius (h r)
          \<and> collisionClass (h' r) = collisionClass (h r))"

text \<open>No two distinct solid entities of the list overlap.\<close>

definition solidsApart :: "nat list \<Rightarrow> (nat \<Rightarrow> MovingEntity) \<Rightarrow> bool" where
  "solidsApart es h =
     (\<forall>a\<in>set es. \<forall>b\<in>set es.
        a \<noteq> b \<and> collisionClass (h a) = solid \<and> collisionClass (h b) = solid
        \<longrightarrow> \<not> 0 < getCollisionOverlap (h a) (h b))"

text \<open>
  \<^verbatim>\<open>Coliseum.start\<close> on a fresh component: \<open>r1\<close> to \<open>r4\<close> are the four results of
  \<^verbatim>\<open>Math.random()\<close>, the handlers are what the two initializers returned. References not
  yet allocated hold a placeholder.
\<close>

definition start ::
  "real \<Rightarrow> real \<Rightarrow> real \<Rightarrow> real \<Rightarrow> nat \<Rightarrow> BotThinkHandler \<Rightarrow> nat \<Rightarrow> BotThinkHandler \<Rightarrow> Coliseum" where
  "start r1 r2 r3 r4 left leftHandler right rightHandler =
     \<lparr> heap = (\<lambda>r. newBot 0 0 right rightHandler)
                (0 := newBot (- 10 * r1) (20 * r2 - 10) left leftHandler,
                 1 := newBot (10 * r3) (20 * r4 - 10) right rightHandler),
       nextRef = 2, entities = [0, 1], startTimer = 30, endTimer = 60, result = None,
       propsLeft = left, hooked = True \<rparr>"

text \<open>The fields that decide whether an entity is dead and may die.\<close>

definition vitals :: "MovingEntity \<Rightarrow> EntityClass \<times> CollisionClass \<times> bool \<times> int \<times> int" where
  "vitals e = (cls e, collisionClass e, dead e, health e, damage e)"

text \<open>
  What the constructors establish and every step keeps: a ship is solid and, once dead,
  has no health left; a projectile does no negative damage.
\<close>

definition sound :: "MovingEntity \<Rightarrow> bool" where
  "sound e = ((isShip e \<longrightarrow> collisionClass e = solid \<and> (dead e \<longrightarrow> health e \<le> 0))
              \<and> (isProjectile e \<longrightarrow> 0 \<le> damage e))"

text \<open>The live set holds allocated references and every allocated entity is sound.\<close>

definition wellFormed :: "Coliseum \<Rightarrow> bool" where
  "wellFormed st = ((\<forall>e\<in>set (entities st). e < nextRef st) \<and> (\<forall>r<nextRef st. sound (heap st r)))"

text \<open>Up to reference \<open>n\<close>, the entities of \<open>h\<close> are sound and those dead in \<open>h0\<close> are dead in \<open>h\<close>.\<close>

definition aged :: "nat \<Rightarrow> (nat \<Rightarrow> MovingEntity) \<Rightarrow> (nat \<Rightarrow> MovingEntity) \<Rightarrow> bool" where
  "aged n h0 h = (\<forall>r<n. sound (h r) \<and> (dead (h0 r) \<longrightarrow> dead (h r)))"

text \<open>
  \<open>st'\<close> has the references of \<open>st\<close> and possibly new ones; the old entities keep their
  vitals, the new ones are sound, and the live set is the same.
\<close>

definition extends :: "Coliseum \<Rightarrow> Coliseum \<Rightarrow> bool" where
  "extends st st' =
     (nextRef st \<le> nextRef st' \<and> entities st' = entities st
      \<and> (\<forall>r<nextRef st. vitals (heap st' r) = vitals (heap st r))
      \<and> (\<forall>r<nextRef st'. nextRef st \<le> r \<longrightarrow> sound (heap st' r)))"

text \<open>In the middle of a tick: the first bot has just been killed and another shot touches it.\<close>

definition fallenExample :: Coliseum where
  "fallenExample =
     \<lparr> heap = (\<lambda>r. newShot 1 1 0 pi)
                (0 := (newBot 0 0 0 noHandler)\<lparr> health := 0, dead := True \<rparr>,
                 1 := newBot 5 5 1 noHandler),
       nextRef = 3, entities = [0, 1, 2], startTimer = 0, endTimer = 60, result = None,
       propsLeft = 0, hooked = True \<rparr>"

text \<open>The combat test of \<^verbatim>\<open>updateEntities\<close>: more than one bot is in the live set.\<close>

definition isInCombat :: "Coliseum \<Rightarrow> bool" where
  "isInCombat st = (length (filter (\<lambda>e. isBot (heap st e)) (entities st)) > 1)"

text \<open>
  The tick as the specification words it (section 4.5), for comparison with
  \<^verbatim>\<open>updateEntities\<close>: six phases, each over the whole live set. Phase 1 integrates the
  motion of every live entity; phase 2 runs the behavior step of every scriptable entity
  and collects what they spawn; phase 3 appends the spawned entities; collision
  resolution, bounds enforcement and the reaping follow.
\<close>

definition integrateMotionOf :: "nat \<Rightarrow> (nat \<Rightarrow> MovingEntity) \<Rightarrow> (nat \<Rightarrow> MovingEntity)" where
  "integrateMotionOf e h = h(e := update (h e))"

definition integrateMotion :: "Coliseum \<Rightarrow> Coliseum" where
  "integrateMotion st = st\<lparr> heap := fold integrateMotionOf (entities st) (heap st) \<rparr>"

fun stepBehaviors :: "nat list \<Rightarrow> Coliseum \<Rightarrow> nat list \<Rightarrow> (Coliseum, Coliseum \<times> nat list) completion" where
  "stepBehaviors [] st newEntities = Returned (st, newEntities)"
| "stepBehaviors (e # es) st newEntities =
     (if isScriptable (heap st e)
      then (case updateWithEnvironment e st of
              Threw st2 \<Rightarrow> Threw st2
            | Returned (st2, res) \<Rightarrow> stepBehaviors es st2 (newEntities @ res))
      else stepBehaviors es st newEntities)"

definition appendSpawned :: "Coliseum \<Rightarrow> nat list \<Rightarrow> Coliseum" where
  "appendSpawned st newEntities = st\<lparr> entities := entities st @ newEntities \<rparr>"

definition specTick :: "Coliseum \<Rightarrow> (Coliseum, Coliseum) completion" where
  "specTick st =
     (case stepBehaviors (entities st) (integrateMotion st) [] of
        Threw st1 \<Rightarrow> Threw st1
      | Returned (st1, newEntities) \<Rightarrow>
          Returned (reap (enforceBounds (findAndResolveCollisions (appendSpawned st1 newEntities)))))"

definition specTickState :: "Coliseum \<Rightarrow> Coliseum" where
  "specTickState st = (case specTick st of Threw st1 \<Rightarrow> st1 | Returned st1 \<Rightarrow> st1)"

text \<open>The built-in \<^verbatim>\<open>BehaviorTurret\<close>: aim at the enemy and shoot.\<close>

primcorec BehaviorTurret :: BotThinkHandler where
  "invoke BehaviorTurret =
     (\<lambda>self environment.
        (Some (case enemy environment of
                 Some e \<Rightarrow>
                   self\<lparr> RobotState.shootDirection := atan2 (y e - y self) (x e - x self),
                         RobotState.shoot := True \<rparr>
               | None \<Rightarrow> self\<lparr> RobotState.shoot := False \<rparr>),
         BehaviorTurret))"

text \<open>A turret and, five units to its right, a bot that is moving upwards.\<close>

definition turretExample :: Coliseum where
  "turretExample =
     \<lparr> heap = (\<lambda>r. newBot 0 0 0 BehaviorTurret)
                (1 := (newBot 5 0 1 noHandler)\<lparr> move := True, moveDirection := pi / 2 \<rparr>),
       nextRef = 2, entities = [0, 1], startTimer = 0, endTimer = 60, result = None,
       propsLeft = 0, hooked = True \<rparr>"

text \<open>Two turrets as \<^verbatim>\<open>start\<close> places them, once the start timer has run out.\<close>

definition standoffExample :: Coliseum where
  "standoffExample = (start 0.5 0.5 0.5 0.5 0 BehaviorTurret 1 BehaviorTurret)\<lparr> startTimer := 0 \<rparr>"

text \<open>A massless projectile, as \<^verbatim>\<open>new Shot\<close> makes it.\<close>

definition shotKind :: "MovingEntity \<Rightarrow> bool" where
  "shotKind e = (isProjectile e \<and> collisionClass e = massless)"

text \<open>Every massless projectile of \<open>h\<close> is one in \<open>h'\<close>.\<close>

definition keepsShots :: "(nat \<Rightarrow> MovingEntity) \<Rightarrow> (nat \<Rightarrow> MovingEntity) \<Rightarrow> bool" where
  "keepsShots h h' = (\<forall>r. shotKind (h r) \<longrightarrow> shotKind (h' r))"

text \<open>
  The shape of the live set in a match: \<^verbatim>\<open>start\<close> allocates the two bots at the references 0
  and 1, and everything allocated later is a shot.
\<close>

definition matchOfTwo :: "Coliseum \<Rightarrow> bool" where
  "matchOfTwo st = (\<forall>e\<in>set (entities st). 2 \<le> e \<longrightarrow> shotKind (heap st e))"

section \<open>Properties\<close>

subsection \<open>Bounds enforcement\<close>

lemma enforceBoundsOn_eq: "enforceBoundsOn e h = h(e := boundedEntity (h e))"
  by (auto simp add: enforceBoundsOn_def boundedEntity_def Let_def fun_eq_iff)

lemma enforceBoundsOnCoordinate_idem:
  "enforceBoundsOnCoordinate (enforceBoundsOnCoordinate c) = enforceBoundsOnCoordinate c"
  by (simp add: enforceBoundsOnCoordinate_def maxDistance_def)

lemma boundedEntity_idem: "boundedEntity (boundedEntity e) = boundedEntity e"
  by (auto simp add: boundedEntity_def isProjectile_def enforceBoundsOnCoordinate_idem)

lemma fold_enforceBoundsOn:
  "fold enforceBoundsOn es h r = (if r \<in> set es then boundedEntity (h r) else h r)"
  by (induction es arbitrary: h) (auto simp add: enforceBoundsOn_eq boundedEntity_idem)

text \<open>
  C9. In the bounds-enforcement phase, for every entity of the live set: a projectile keeps
  its position and is dead afterwards exactly when it was dead before or lies outside the
  arena square, so one outside is marked dead and none is bounced or clamped; any other
  entity has \<open>x\<close> and \<open>y\<close> each clamped into the arena square and keeps its \<open>dead\<close> flag.
  The phase leaves the live set as it is: removal is the reap phase's work.
\<close>

theorem enforceBounds_effect:
  assumes "e \<in> set (entities st)"
  shows "entities (enforceBounds st) = entities st
    \<and> (isProjectile (heap st e) \<longrightarrow>
         x (heap (enforceBounds st) e) = x (heap st e)
       \<and> y (heap (enforceBounds st) e) = y (heap st e)
       \<and> (dead (heap (enforceBounds st) e) \<longleftrightarrow>
            dead (heap st e) \<or> x (heap st e) < - maxDistance \<or> x (heap st e) > maxDistance
              \<or> y (heap st e) < - maxDistance \<or> y (heap st e) > maxDistance))
    \<and> (\<not> isProjectile (heap st e) \<longrightarrow>
         x (heap (enforceBounds st) e) = max (- maxDistance) (min maxDistance (x (heap st e)))
       \<and> y (heap (enforceBounds st) e) = max (- maxDistance) (min maxDistance (y (heap st e)))
       \<and> dead (heap (enforceBounds st) e) = dead (heap st e))"
  using assms
  by (simp add: enforceBounds_def fold_enforceBoundsOn boundedEntity_def
      enforceBoundsOnCoordinate_def)

text \<open>
  The shot at \<open>x = 20.5\<close> is dead after the phase and has not moved; the bot at
  \<open>(12, -11)\<close> is at the corner \<open>(10, -10)\<close> and still alive.
\<close>

theorem enforceBounds_effect_witness:
  "0 \<in> set (entities boundsExample) \<and> isProjectile (heap boundsExample 0)
   \<and> \<not> dead (heap boundsExample 0)
   \<and> dead (heap (enforceBounds boundsExample) 0)
   \<and> x (heap (enforceBounds boundsExample) 0) = 20.5
   \<and> 1 \<in> set (entities boundsExample) \<and> \<not> isProjectile (heap boundsExample 1)
   \<and> x (heap (enforceBounds boundsExample) 1) = 10
   \<and> y (heap (enforceBounds boundsExample) 1) = - 10
   \<and> \<not> dead (heap (enforceBounds boundsExample) 1)"
  using enforceBounds_effect [of 0 boundsExample] enforceBounds_effect [of 1 boundsExample]
  by (simp add: boundsExample_def newShot_def newBot_def isProjectile_def maxDistance_def)

subsection \<open>Polar coordinates\<close>

lemma sqrt_scaled_pos:
  fixes a t :: real assumes "0 < a"
  shows "sqrt (a * a + (a * t) * (a * t)) = a * sqrt (1 + t\<^sup>2)"
proof -
  have "a * a + (a * t) * (a * t) = a\<^sup>2 * (1 + t\<^sup>2)" by (simp add: power2_eq_square algebra_simps)
  then show ?thesis using assms by (simp add: real_sqrt_mult)
qed

lemma polar_arctan_pos:
  fixes dx dy :: real assumes "0 < dx"
  shows "sqrt (dx * dx + dy * dy) * cos (arctan (dy / dx)) = dx"
    and "sqrt (dx * dx + dy * dy) * sin (arctan (dy / dx)) = dy"
proof -
  define t where "t = dy / dx"
  have dy: "dy = dx * t" using assms by (simp add: t_def)
  have pos: "0 < sqrt (1 + t\<^sup>2)" by (simp add: add_pos_nonneg)
  have s: "sqrt (dx * dx + dy * dy) = dx * sqrt (1 + t\<^sup>2)"
    unfolding dy using sqrt_scaled_pos [OF assms] by simp
  show "sqrt (dx * dx + dy * dy) * cos (arctan (dy / dx)) = dx"
    unfolding s t_def [symmetric] using pos by (simp add: cos_arctan)
  show "sqrt (dx * dx + dy * dy) * sin (arctan (dy / dx)) = dy"
    unfolding s t_def [symmetric] using pos by (simp add: sin_arctan dy)
qed

lemma polar_arctan_neg:
  fixes dx dy :: real assumes "dx < 0"
  shows "sqrt (dx * dx + dy * dy) * cos (arctan (dy / dx)) = - dx"
    and "sqrt (dx * dx + dy * dy) * sin (arctan (dy / dx)) = - dy"
proof -
  have p: "0 < - dx" using assms by simp
  have e: "dy / dx = (- dy) / (- dx)" by simp
  show "sqrt (dx * dx + dy * dy) * cos (arctan (dy / dx)) = - dx"
    using polar_arctan_pos(1) [OF p, of "- dy"] unfolding e by simp
  show "sqrt (dx * dx + dy * dy) * sin (arctan (dy / dx)) = - dy"
    using polar_arctan_pos(2) [OF p, of "- dy"] unfolding e by simp
qed

lemma atan2_polar:
  "sqrt (dx * dx + dy * dy) * cos (atan2 dy dx) = dx"
  "sqrt (dx * dx + dy * dy) * sin (atan2 dy dx) = dy"
proof -
  consider "0 < dx" | "dx < 0" "0 \<le> dy" | "dx < 0" "dy < 0" | "dx = 0" by linarith
  then show "sqrt (dx * dx + dy * dy) * cos (atan2 dy dx) = dx"
  proof cases
    case 1 then show ?thesis by (simp add: atan2_def polar_arctan_pos)
  next
    case 2 then show ?thesis using polar_arctan_neg(1) [of dx dy] by (simp add: atan2_def)
  next
    case 3 then show ?thesis using polar_arctan_neg(1) [of dx dy] by (simp add: atan2_def)
  next
    case 4 then show ?thesis by (simp add: atan2_def)
  qed
  consider "0 < dx" | "dx < 0" "0 \<le> dy" | "dx < 0" "dy < 0" | "dx = 0" by linarith
  then show "sqrt (dx * dx + dy * dy) * sin (atan2 dy dx) = dy"
  proof cases
    case 1 then show ?thesis by (simp add: atan2_def polar_arctan_pos)
  next
    case 2 then show ?thesis using polar_arctan_neg(2) [of dx dy] by (simp add: atan2_def)
  next
    case 3 then show ?thesis using polar_arctan_neg(2) [of dx dy] by (simp add: atan2_def)
  next
    case 4 then show ?thesis by (auto simp add: atan2_def)
  qed
qed

subsection \<open>Separation of two solids\<close>

lemma overlap_pos_iff:
  "getCollisionOverlap p q > 0 \<longleftrightarrow> radius p + radius q - getDistance p q > 0"
  by (simp add: getCollisionOverlap_def Let_def)

lemma overlap_pos_eq:
  "getCollisionOverlap p q > 0 \<Longrightarrow> getCollisionOverlap p q = radius p + radius q - getDistance p q"
  by (simp add: getCollisionOverlap_def Let_def split: if_splits)

lemma resolvePair_solid:
  assumes "a \<noteq> b" "collisionClass (h b) = solid" "getCollisionOverlap (h a) (h b) > 0"
  shows "resolvePair a b h =
     h(a := (h a)\<lparr> x := x (h a) - getCollisionOverlap (h a) (h b) / 2 * 1.0001
                          * cos (atan2 (y (h b) - y (h a)) (x (h b) - x (h a))),
                     y := y (h a) - getCollisionOverlap (h a) (h b) / 2 * 1.0001
                          * sin (atan2 (y (h b) - y (h a)) (x (h b) - x (h a))) \<rparr>,
       b := (h b)\<lparr> x := x (h b) + getCollisionOverlap (h a) (h b) / 2 * 1.0001
                          * cos (atan2 (y (h b) - y (h a)) (x (h b) - x (h a))),
                     y := y (h b) + getCollisionOverlap (h a) (h b) / 2 * 1.0001
                          * sin (atan2 (y (h b) - y (h a)) (x (h b) - x (h a))) \<rparr>)"
  using assms by (simp add: resolvePair_def Let_def fun_eq_iff)

lemma scaled_unit_square:
  fixes m c s :: real assumes "c * c + s * s = 1"
  shows "(m * c) * (m * c) + (m * s) * (m * s) = m * m"
proof -
  have "(m * c) * (m * c) + (m * s) * (m * s) = m * m * (c * c + s * s)"
    by (simp add: algebra_simps)
  then show ?thesis by (simp only: assms mult_1_right)
qed

lemma separated_distance:
  fixes xa ya xb yb k :: real
  assumes "0 \<le> k"
  defines "d \<equiv> sqrt ((xa - xb) * (xa - xb) + (ya - yb) * (ya - yb))"
  defines "t \<equiv> atan2 (yb - ya) (xb - xa)"
  shows "sqrt (((xa - k * cos t) - (xb + k * cos t)) * ((xa - k * cos t) - (xb + k * cos t))
             + ((ya - k * sin t) - (yb + k * sin t)) * ((ya - k * sin t) - (yb + k * sin t)))
         = d + 2 * k"
proof -
  have d': "d = sqrt ((xb - xa) * (xb - xa) + (yb - ya) * (yb - ya))"
    unfolding d_def by (simp add: algebra_simps)
  have c: "d * cos t = xb - xa" and s: "d * sin t = yb - ya"
    unfolding d' t_def by (rule atan2_polar)+
  have d0: "0 \<le> d" unfolding d_def by simp
  have ex: "(xa - k * cos t) - (xb + k * cos t) = - ((d + 2 * k) * cos t)"
    using c by (simp add: algebra_simps)
  have ey: "(ya - k * sin t) - (yb + k * sin t) = - ((d + 2 * k) * sin t)"
    using s by (simp add: algebra_simps)
  have "((d + 2 * k) * cos t) * ((d + 2 * k) * cos t)
        + ((d + 2 * k) * sin t) * ((d + 2 * k) * sin t) = (d + 2 * k) * (d + 2 * k)"
    by (rule scaled_unit_square) (rule sin_cos_squared_add3)
  then have "(- ((d + 2 * k) * cos t)) * (- ((d + 2 * k) * cos t))
        + (- ((d + 2 * k) * sin t)) * (- ((d + 2 * k) * sin t)) = (d + 2 * k) * (d + 2 * k)"
    by (simp only: minus_mult_minus)
  then show ?thesis
    unfolding ex ey using d0 assms(1) by simp
qed

lemma displacement_norm:
  fixes k t :: real assumes "0 \<le> k"
  shows "sqrt ((k * cos t) * (k * cos t) + (k * sin t) * (k * sin t)) = k"
proof -
  have "(k * cos t) * (k * cos t) + (k * sin t) * (k * sin t) = k * k"
    by (rule scaled_unit_square) (rule sin_cos_squared_add3)
  then show ?thesis using assms by simp
qed

text \<open>
  C7. When the resolver handles a pair of distinct solid entities that overlap, the
  displacement of \<open>a\<close> is the exact negation of the displacement of \<open>b\<close>; \<open>b\<close> moves
  by half the overlap scaled by 1.0001 along the bearing from \<open>a\<close> to \<open>b\<close>, so each
  displacement has that magnitude; afterwards the centres are at least the sum of the
  radii apart; and no entity's \<open>dead\<close> flag or health changes. Numbers are reals here, so
  the bound holds exactly.
\<close>

theorem separation_symmetric:
  assumes "a \<noteq> b"
    and "collisionClass (h a) = solid" and "collisionClass (h b) = solid"
    and "getCollisionOverlap (h a) (h b) > 0"
  shows "x (resolvePair a b h a) - x (h a) = - (x (resolvePair a b h b) - x (h b))
    \<and> y (resolvePair a b h a) - y (h a) = - (y (resolvePair a b h b) - y (h b))
    \<and> x (resolvePair a b h b) - x (h b)
        = getCollisionOverlap (h a) (h b) / 2 * 1.0001 * cos (atan2 (y (h b) - y (h a)) (x (h b) - x (h a)))
    \<and> y (resolvePair a b h b) - y (h b)
        = getCollisionOverlap (h a) (h b) / 2 * 1.0001 * sin (atan2 (y (h b) - y (h a)) (x (h b) - x (h a)))
    \<and> sqrt ((x (resolvePair a b h b) - x (h b)) * (x (resolvePair a b h b) - x (h b))
            + (y (resolvePair a b h b) - y (h b)) * (y (resolvePair a b h b) - y (h b)))
        = getCollisionOverlap (h a) (h b) / 2 * 1.0001
    \<and> getDistance (resolvePair a b h a) (resolvePair a b h b)
        \<ge> radius (resolvePair a b h a) + radius (resolvePair a b h b)
    \<and> (\<forall>r. dead (resolvePair a b h r) = dead (h r) \<and> health (resolvePair a b h r) = health (h r))"
proof -
  define k where "k = getCollisionOverlap (h a) (h b) / 2 * 1.0001"
  define t where "t = atan2 (y (h b) - y (h a)) (x (h b) - x (h a))"
  have k0: "0 \<le> k" using assms(4) by (simp add: k_def)
  have eq: "resolvePair a b h =
      h(a := (h a)\<lparr> x := x (h a) - k * cos t, y := y (h a) - k * sin t \<rparr>,
        b := (h b)\<lparr> x := x (h b) + k * cos t, y := y (h b) + k * sin t \<rparr>)"
    unfolding k_def t_def by (rule resolvePair_solid [OF assms(1) assms(3) assms(4)])
  have ov: "getCollisionOverlap (h a) (h b) = radius (h a) + radius (h b) - getDistance (h a) (h b)"
    by (rule overlap_pos_eq [OF assms(4)])
  have dist: "getDistance (resolvePair a b h a) (resolvePair a b h b) = getDistance (h a) (h b) + 2 * k"
    unfolding eq using assms(1) separated_distance [OF k0, where xa = "x (h a)" and xb = "x (h b)" and ya = "y (h a)" and yb = "y (h b)"]
    by (simp add: getDistance_def t_def)
  have "getCollisionOverlap (h a) (h b) \<le> 2 * k" using assms(4) by (simp add: k_def)
  then have "radius (h a) + radius (h b) \<le> getDistance (h a) (h b) + 2 * k"
    using ov assms(4) by linarith
  then have far: "getDistance (resolvePair a b h a) (resolvePair a b h b)
        \<ge> radius (resolvePair a b h a) + radius (resolvePair a b h b)"
    unfolding dist using assms(1) by (simp add: eq)
  have norm: "sqrt ((x (resolvePair a b h b) - x (h b)) * (x (resolvePair a b h b) - x (h b))
            + (y (resolvePair a b h b) - y (h b)) * (y (resolvePair a b h b) - y (h b))) = k"
    using displacement_norm [OF k0, of t] by (simp add: eq)
  have frame: "\<forall>r. dead (resolvePair a b h r) = dead (h r) \<and> health (resolvePair a b h r) = health (h r)"
    by (simp add: eq)
  show ?thesis
    using far norm frame assms(1) unfolding k_def [symmetric] t_def [symmetric]
    by (simp add: eq)
qed

lemma getCollisionOverlap_overlapExample: "getCollisionOverlap (overlapExample 0) (overlapExample 1) = 1"
  by (simp add: overlapExample_def newBot_def getCollisionOverlap_def getDistance_def)

lemma overlapExample_fields:
  "x (overlapExample 0) = 0" "y (overlapExample 0) = 0" "radius (overlapExample 0) = 1"
  "x (overlapExample 1) = 1" "y (overlapExample 1) = 0" "radius (overlapExample 1) = 1"
  "collisionClass (overlapExample 0) = solid" "collisionClass (overlapExample 1) = solid"
  "dead (overlapExample 0) = False" "health (overlapExample 0) = 100"
  "dead (overlapExample 1) = False" "health (overlapExample 1) = 100"
  by (simp_all add: overlapExample_def newBot_def)

theorem separation_symmetric_witness:
  "(0::nat) \<noteq> 1 \<and> collisionClass (overlapExample 0) = solid \<and> collisionClass (overlapExample 1) = solid
   \<and> getCollisionOverlap (overlapExample 0) (overlapExample 1) > 0
   \<and> x (resolvePair 0 1 overlapExample 0) = - 0.50005
   \<and> x (resolvePair 0 1 overlapExample 1) = 1.50005
   \<and> y (resolvePair 0 1 overlapExample 0) = 0
   \<and> y (resolvePair 0 1 overlapExample 1) = 0
   \<and> getDistance (resolvePair 0 1 overlapExample 0) (resolvePair 0 1 overlapExample 1)
        \<ge> radius (resolvePair 0 1 overlapExample 0) + radius (resolvePair 0 1 overlapExample 1)
   \<and> \<not> dead (resolvePair 0 1 overlapExample 0) \<and> health (resolvePair 0 1 overlapExample 0) = 100
   \<and> \<not> dead (resolvePair 0 1 overlapExample 1) \<and> health (resolvePair 0 1 overlapExample 1) = 100"
proof -
  have ne: "(0::nat) \<noteq> 1" by simp
  have ov: "getCollisionOverlap (overlapExample 0) (overlapExample 1) = 1"
    by (rule getCollisionOverlap_overlapExample)
  have pos: "getCollisionOverlap (overlapExample 0) (overlapExample 1) > 0"
    by (simp only: ov zero_less_one)
  have at: "atan2 (y (overlapExample 1) - y (overlapExample 0)) (x (overlapExample 1) - x (overlapExample 0)) = 0"
    by (simp add: overlapExample_fields atan2_def del: One_nat_def)
  show ?thesis
    using separation_symmetric [OF ne overlapExample_fields(7) overlapExample_fields(8) pos]
    unfolding ov at by (simp add: overlapExample_fields del: One_nat_def)
qed

subsection \<open>Behavior step\<close>

text \<open>
  C4. When the behavior step \<^verbatim>\<open>think\<close> returns, \<open>x\<close>, \<open>y\<close> and \<open>radius\<close> of the ship are what
  they were; for a bot the result is the ship with the handler's \<open>move\<close>, \<open>shoot\<close>,
  \<open>shootDirection\<close> and \<open>moveDirection\<close> (and the handler's next closure) and nothing else
  of the intent record, whatever the handler wrote there.
\<close>

theorem think_copies_intent_only:
  assumes "think this environment = Returned this'"
  shows "x this' = x this \<and> y this' = y this \<and> radius this' = radius this
    \<and> (isBot this \<longrightarrow>
         (\<exists>state' k.
            invoke (thinkHandler this)
              \<lparr> x = x this, y = y this, radius = radius this,
                RobotState.shootDirection = shootDirection this,
                RobotState.moveDirection = moveDirection this,
                RobotState.move = move this, RobotState.shoot = shoot this \<rparr>
              environment = (Some state', k)
          \<and> this' = this\<lparr> move := RobotState.move state', shoot := RobotState.shoot state',
                            shootDirection := RobotState.shootDirection state',
                            moveDirection := RobotState.moveDirection state',
                            thinkHandler := k \<rparr>))
    \<and> (\<not> isBot this \<longrightarrow> this' = this)"
  using assms
  by (auto simp add: think_def Let_def split: if_splits prod.splits option.splits)

text \<open>The handler sets \<open>x\<close>, \<open>y\<close> to 99 and \<open>radius\<close> to 50; the bot stays at \<open>(3, 4)\<close> with radius 1.\<close>

theorem think_copies_intent_only_witness:
  "isBot (newBot 3 4 0 cheatingHandler)
   \<and> (\<exists>this'. think (newBot 3 4 0 cheatingHandler) (getEnvironment boundsExample 5) = Returned this'
         \<and> x this' = 3 \<and> y this' = 4 \<and> radius this' = 1
         \<and> move this' \<and> shoot this' \<and> shootDirection this' = pi \<and> moveDirection this' = pi)"
proof -
  have b: "isBot (newBot 3 4 0 cheatingHandler)" by (simp add: isBot_def newBot_def)
  obtain this' where h: "think (newBot 3 4 0 cheatingHandler) (getEnvironment boundsExample 5) = Returned this'"
    by (simp add: think_def isBot_def newBot_def)
  from think_copies_intent_only [OF h] b
  have "x this' = 3 \<and> y this' = 4 \<and> radius this' = 1
         \<and> move this' \<and> shoot this' \<and> shootDirection this' = pi \<and> moveDirection this' = pi"
    by (auto simp add: newBot_def)
  with b h show ?thesis by blast
qed

text \<open>The scripted handler never throws and leaves the read-only fields of \<open>self\<close> alone.\<close>

lemma customInitializer_readonly:
  "\<exists>s k. invoke (customInitializer vm) self environment = (Some s, k)
     \<and> x s = x self \<and> y s = y self \<and> radius s = radius self"
  by (simp split: prod.splits option.splits)

lemma think_shootTimer:
  "think this environment = Returned this' \<Longrightarrow>
     shootTimer this' = shootTimer this \<and> shootPeriod this' = shootPeriod this"
  by (auto simp add: think_def Let_def split: if_splits prod.splits option.splits)

text \<open>
  C3. A behavior step of a ship that returns spawns no entity or exactly one; it spawns one
  exactly when the intent after \<^verbatim>\<open>think\<close> asks to shoot and the shoot timer was not above
  zero when the step began (zero, for a timer that is never negative). When it fires, the
  timer is reset to \<open>shootPeriod\<close> and the spawned entity is a new shot placed at the ship's
  position plus \<open>(radius + shotRadius) * 1.001\<close> along the aim direction, moving and aiming
  in the ship's aim direction.
\<close>

theorem ship_spawns_at_most_one_shot:
  assumes "isShip (heap st e)" and "e < nextRef st"
    and "updateWithEnvironment e st = Returned (st', spawned)"
  shows "length spawned \<le> 1
    \<and> (spawned \<noteq> [] \<longleftrightarrow> shoot (heap st' e) \<and> shootTimer (heap st e) \<le> 0)
    \<and> (0 \<le> shootTimer (heap st e) \<and> spawned \<noteq> [] \<longrightarrow> shootTimer (heap st e) = 0)
    \<and> (spawned \<noteq> [] \<longrightarrow>
          spawned = [nextRef st]
        \<and> shootTimer (heap st' e) = shootPeriod (heap st' e)
        \<and> heap st' (nextRef st) =
            newShot e
              (x (heap st' e) + (radius (heap st' e) + shotRadius) * 1.001 * cos (shootDirection (heap st' e)))
              (y (heap st' e) + (radius (heap st' e) + shotRadius) * 1.001 * sin (shootDirection (heap st' e)))
              (shootDirection (heap st' e))
        \<and> isProjectile (heap st' (nextRef st))
        \<and> moveDirection (heap st' (nextRef st)) = shootDirection (heap st' e)
        \<and> shootDirection (heap st' (nextRef st)) = shootDirection (heap st' e))"
proof (cases "think (heap st e) (getEnvironment st e)")
  case (Threw this)
  with assms show ?thesis by (simp add: updateWithEnvironment_def)
next
  case (Returned this)
  note tm = think_shootTimer [OF Returned]
  show ?thesis
  proof (cases "shoot this \<and> shootTimer this \<le> 0")
    case True
    with assms Returned tm show ?thesis
      by (auto simp add: updateWithEnvironment_def Let_def newShot_def isProjectile_def)
  next
    case False
    with assms Returned tm show ?thesis
      by (auto simp add: updateWithEnvironment_def Let_def split: if_splits)
  qed
qed

theorem ship_spawns_at_most_one_shot_witness:
  "isShip (heap shooterExample 0) \<and> 0 < nextRef shooterExample
   \<and> shootTimer (heap shooterExample 0) = 0
   \<and> (\<exists>st'. updateWithEnvironment 0 shooterExample = Returned (st', [1])
         \<and> shoot (heap st' 0) \<and> shootTimer (heap st' 0) = 10
         \<and> isProjectile (heap st' 1)
         \<and> x (heap st' 1) = 1.84885 \<and> y (heap st' 1) = 4
         \<and> moveDirection (heap st' 1) = pi)"
proof -
  have a: "isShip (heap shooterExample 0)" and b: "0 < nextRef shooterExample"
    and c: "shootTimer (heap shooterExample 0) = 0"
    by (simp_all add: shooterExample_def newBot_def isShip_def)
  obtain st' where h: "updateWithEnvironment 0 shooterExample = Returned (st', [1])"
    and v: "x (heap st' 0) = 3" "y (heap st' 0) = 4" "radius (heap st' 0) = 1"
      "shootDirection (heap st' 0) = pi" "shootPeriod (heap st' 0) = 10"
    by (simp add: updateWithEnvironment_def think_def shooterExample_def newBot_def
        isShip_def isBot_def Let_def)
  from ship_spawns_at_most_one_shot [OF a b h] v c
  have "shoot (heap st' 0) \<and> shootTimer (heap st' 0) = 10
         \<and> isProjectile (heap st' 1)
         \<and> x (heap st' 1) = 1.84885 \<and> y (heap st' 1) = 4
         \<and> moveDirection (heap st' 1) = pi"
    by (simp add: shooterExample_def newShot_def shotRadius_def isProjectile_def)
  with a b c h show ?thesis by blast
qed

subsection \<open>Environment builder\<close>

lemma first_of_map:
  "(case map f es of [] \<Rightarrow> None | d # _ \<Rightarrow> Some d) = (case es of [] \<Rightarrow> None | e # _ \<Rightarrow> Some (f e))"
  by (cases es) simp_all

lemma first_of_filter:
  "(case filter P es of [] \<Rightarrow> None | e # _ \<Rightarrow> Some (f e)) = map_option f (find P es)"
  by (induction es) simp_all

lemma enemy_find:
  "enemy (getEnvironment st self) =
     map_option (\<lambda>e. enemyStateOf (heap st e))
       (find (\<lambda>e. e \<noteq> self \<and> collisionClass (heap st e) = solid) (entities st))"
  by (simp add: getEnvironment_def first_of_map first_of_filter)

lemma enemyStateOf_fields:
  "x (enemyStateOf e) = x e" "y (enemyStateOf e) = y e" "radius (enemyStateOf e) = radius e"
  "move e \<Longrightarrow> EnemyState.direction (enemyStateOf e) =
      Some (atan2 (enforceBoundsOnCoordinate (y e + speed e * sin (moveDirection e)) - y e)
                  (enforceBoundsOnCoordinate (x e + speed e * cos (moveDirection e)) - x e))"
  "move e \<Longrightarrow> EnemyState.speed (enemyStateOf e) =
      sqrt ((enforceBoundsOnCoordinate (x e + speed e * cos (moveDirection e)) - x e)
            * (enforceBoundsOnCoordinate (x e + speed e * cos (moveDirection e)) - x e)
          + (enforceBoundsOnCoordinate (y e + speed e * sin (moveDirection e)) - y e)
            * (enforceBoundsOnCoordinate (y e + speed e * sin (moveDirection e)) - y e))"
  "\<not> move e \<Longrightarrow> EnemyState.direction (enemyStateOf e) = None"
  "\<not> move e \<Longrightarrow> EnemyState.speed (enemyStateOf e) = 0"
  by (simp_all add: enemyStateOf_def Let_def getDistance_def)

lemma getDistance_level: "y p = y q \<Longrightarrow> getDistance p q = \<bar>x p - x q\<bar>"
  by (simp add: getDistance_def)

lemma sqrt_tenth: "sqrt (1 / 10 * (1 / 10) + 0 * 0) = 1 / 10"
  by (simp only: mult_zero_left add_0_right real_sqrt_abs2 abs_divide abs_one abs_numeral)

text \<open>
  C6. For every live set and requesting entity: an enemy descriptor in the snapshot is the
  descriptor of an entity of the live set other than the requesting one; the projectile
  states are those of projectiles of the live set whose source is not the requesting
  entity; and there is at most one enemy descriptor.
\<close>

theorem environment_excludes_self:
  "(\<forall>d. enemy (getEnvironment st self) = Some d \<longrightarrow>
        (\<exists>e\<in>set (entities st). e \<noteq> self \<and> d = enemyStateOf (heap st e)))
   \<and> (\<exists>ps. enemyProjectiles (getEnvironment st self) = map (\<lambda>p. projectileStateOf (heap st p)) ps
          \<and> (\<forall>p\<in>set ps. p \<in> set (entities st) \<and> isProjectile (heap st p)
                \<and> source (heap st p) \<noteq> self))
   \<and> card (set_option (enemy (getEnvironment st self))) \<le> 1"
proof (intro conjI allI impI)
  fix d assume "enemy (getEnvironment st self) = Some d"
  then obtain e where
    "find (\<lambda>e. e \<noteq> self \<and> collisionClass (heap st e) = solid) (entities st) = Some e"
    "d = enemyStateOf (heap st e)"
    unfolding enemy_find by auto
  then show "\<exists>e\<in>set (entities st). e \<noteq> self \<and> d = enemyStateOf (heap st e)"
    unfolding find_Some_iff by auto
next
  show "\<exists>ps. enemyProjectiles (getEnvironment st self) = map (\<lambda>p. projectileStateOf (heap st p)) ps
          \<and> (\<forall>p\<in>set ps. p \<in> set (entities st) \<and> isProjectile (heap st p)
                \<and> source (heap st p) \<noteq> self)"
    by (rule exI [of _ "filter (\<lambda>e. isProjectile (heap st e) \<and> isMovingEntity (heap st e)
                         \<and> source (heap st e) \<noteq> self) (entities st)"])
       (simp add: getEnvironment_def)
next
  show "card (set_option (enemy (getEnvironment st self))) \<le> 1"
    by (cases "enemy (getEnvironment st self)") simp_all
qed

theorem environment_excludes_self_witness:
  "enemy (getEnvironment duelExample 0) = Some (enemyStateOf (heap duelExample 1))
   \<and> (\<exists>e\<in>set (entities duelExample). e \<noteq> 0
         \<and> enemyStateOf (heap duelExample 1) = enemyStateOf (heap duelExample e))
   \<and> 2 \<in> set (entities duelExample) \<and> isProjectile (heap duelExample 2)
   \<and> source (heap duelExample 2) = 0
   \<and> enemyProjectiles (getEnvironment duelExample 0) = [projectileStateOf (heap duelExample 3)]
   \<and> 3 \<in> set (entities duelExample) \<and> isProjectile (heap duelExample 3)
   \<and> source (heap duelExample 3) \<noteq> 0"
proof -
  have h: "enemy (getEnvironment duelExample 0) = Some (enemyStateOf (heap duelExample 1))"
    by (simp add: enemy_find duelExample_def newBot_def newShot_def)
  from environment_excludes_self [of duelExample 0] h
  have "\<exists>e\<in>set (entities duelExample). e \<noteq> 0
         \<and> enemyStateOf (heap duelExample 1) = enemyStateOf (heap duelExample e)"
    by blast
  moreover have "2 \<in> set (entities duelExample) \<and> isProjectile (heap duelExample 2)
      \<and> source (heap duelExample 2) = 0
      \<and> enemyProjectiles (getEnvironment duelExample 0) = [projectileStateOf (heap duelExample 3)]
      \<and> 3 \<in> set (entities duelExample) \<and> isProjectile (heap duelExample 3)
      \<and> source (heap duelExample 3) \<noteq> 0"
    by (simp add: getEnvironment_def duelExample_def newBot_def newShot_def isProjectile_def
        isMovingEntity_def)
  ultimately show ?thesis using h by blast
qed

subsection \<open>Collision pass\<close>

lemma overlap_pos_squared:
  "0 < getCollisionOverlap p q \<longleftrightarrow>
     0 < radius p + radius q
     \<and> (x p - x q) * (x p - x q) + (y p - y q) * (y p - y q)
         < (radius p + radius q) * (radius p + radius q)"
proof -
  let ?D = "(x p - x q) * (x p - x q) + (y p - y q) * (y p - y q)"
  let ?R = "radius p + radius q"
  have D0: "0 \<le> ?D" by simp
  have "0 < getCollisionOverlap p q \<longleftrightarrow> sqrt ?D < ?R"
    by (simp add: getCollisionOverlap_def getDistance_def Let_def)
  also have "\<dots> \<longleftrightarrow> 0 < ?R \<and> ?D < ?R * ?R"
  proof
    assume a: "sqrt ?D < ?R"
    have "0 \<le> sqrt ?D" using D0 by simp
    with a have R0: "0 < ?R" by linarith
    have "sqrt ?D < sqrt (?R * ?R)" using a R0 by simp
    then show "0 < ?R \<and> ?D < ?R * ?R" using R0 by (simp only: real_sqrt_less_iff)
  next
    assume a: "0 < ?R \<and> ?D < ?R * ?R"
    then have "sqrt ?D < sqrt (?R * ?R)" by (simp only: real_sqrt_less_iff)
    then show "sqrt ?D < ?R" using a by simp
  qed
  finally show ?thesis .
qed

lemma overlap_level:
  "y p = y q \<Longrightarrow>
   getCollisionOverlap p q =
     (if 0 < radius p + radius q - \<bar>x p - x q\<bar> then radius p + radius q - \<bar>x p - x q\<bar> else 0)"
  by (simp add: getCollisionOverlap_def getDistance_def Let_def)

lemmas pass_simps = findAndResolveCollisions_def resolveFor_def resolvePair_def collided_def
  collidedInternal_def Let_def isEntity_def isShip_def isProjectile_def

lemma fold_invariant:
  assumes "\<And>e s. e \<in> set es \<Longrightarrow> I s \<Longrightarrow> I (f e s)" and "I s"
  shows "I (fold f es s)"
  using assms by (induction es arbitrary: s) simp_all

lemma overlap_classes_distinct:
  "collisionClass (h a) = solid \<Longrightarrow> collisionClass (h b) = massless \<Longrightarrow> a \<noteq> b"
  by auto

lemma resolvePair_massless:
  assumes "a \<noteq> b" "collisionClass (h b) = massless" "0 < getCollisionOverlap (h a) (h b)"
  shows "resolvePair a b h = collided a b h"
  using assms by (simp add: resolvePair_def Let_def)

lemma resolvePair_apart:
  assumes "\<not> 0 < getCollisionOverlap (h a) (h b)"
  shows "resolvePair a b h = h"
  using assms by (simp add: resolvePair_def Let_def)

lemma collided_other_dead: "a \<noteq> b \<Longrightarrow> dead (collided a b h b)"
  by (simp add: collided_def isEntity_def Let_def)

lemma collided_shape:
  "x (collided a b h r) = x (h r) \<and> y (collided a b h r) = y (h r)
   \<and> radius (collided a b h r) = radius (h r)
   \<and> collisionClass (collided a b h r) = collisionClass (h r)"
  by (simp add: collided_def collidedInternal_def isEntity_def Let_def)

lemma collided_keeps_dead: "r \<noteq> a \<Longrightarrow> dead (h r) \<Longrightarrow> dead (collided a b h r)"
  by (simp add: collided_def isEntity_def Let_def)

lemma resolvePair_collisionClass:
  "collisionClass (resolvePair a b h r) = collisionClass (h r)"
  by (simp add: resolvePair_def Let_def collided_shape)

lemma resolvePair_keeps_dead:
  "r \<noteq> a \<Longrightarrow> dead (h r) \<Longrightarrow> dead (resolvePair a b h r)"
  by (auto simp add: resolvePair_def Let_def collided_keeps_dead)

text \<open>The inner scan of a solid entity never undoes the death of a massless one.\<close>

lemma scan_keeps_massless_dead:
  assumes "collisionClass (h a) = solid" "collisionClass (h r) = massless" "dead (h r)"
  shows "collisionClass (fold (resolvePair a) bs h a) = solid
    \<and> collisionClass (fold (resolvePair a) bs h r) = massless
    \<and> dead (fold (resolvePair a) bs h r)"
proof (rule fold_invariant [where I = "\<lambda>s::nat \<Rightarrow> MovingEntity. collisionClass (s a) = solid
      \<and> collisionClass (s r) = massless \<and> dead (s r)"])
  show "collisionClass (h a) = solid \<and> collisionClass (h r) = massless \<and> dead (h r)"
    using assms by simp
next
  fix b and s :: "nat \<Rightarrow> MovingEntity"
  assume "collisionClass (s a) = solid \<and> collisionClass (s r) = massless \<and> dead (s r)"
  then show "collisionClass (resolvePair a b s a) = solid
      \<and> collisionClass (resolvePair a b s r) = massless \<and> dead (resolvePair a b s r)"
    using resolvePair_keeps_dead [of r a s b]
    by (cases "r = a") (auto simp add: resolvePair_collisionClass)
qed

lemma resolveFor_keeps_massless_dead:
  assumes "collisionClass (h r) = massless" "dead (h r)"
  shows "collisionClass (resolveFor es a h r) = massless \<and> dead (resolveFor es a h r)"
  using assms scan_keeps_massless_dead [of h a r es] by (simp add: resolveFor_def)

lemma pass_keeps_massless_dead:
  assumes "collisionClass (h r) = massless" "dead (h r)"
  shows "collisionClass (fold (resolveFor es) as h r) = massless \<and> dead (fold (resolveFor es) as h r)"
  by (rule fold_invariant [where I = "\<lambda>s::nat \<Rightarrow> MovingEntity. collisionClass (s r) = massless \<and> dead (s r)"])
     (use assms resolveFor_keeps_massless_dead in auto)

lemma sameShape_refl: "sameShape h h"
  by (simp add: sameShape_def)

lemma sameShape_trans: "sameShape h h' \<Longrightarrow> sameShape h' h'' \<Longrightarrow> sameShape h h''"
  by (simp add: sameShape_def)

lemma sameShape_class: "sameShape h h' \<Longrightarrow> collisionClass (h' r) = collisionClass (h r)"
  by (simp add: sameShape_def)

lemma sameShape_overlap:
  "sameShape h h' \<Longrightarrow> getCollisionOverlap (h' a) (h' b) = getCollisionOverlap (h a) (h b)"
  by (simp add: sameShape_def getCollisionOverlap_def getDistance_def)

lemma sameShape_solidsApart: "sameShape h h' \<Longrightarrow> solidsApart es h \<Longrightarrow> solidsApart es h'"
  by (simp add: solidsApart_def sameShape_overlap sameShape_class)

lemma resolvePair_sameShape:
  assumes "a \<in> set es" "b \<in> set es" "solidsApart es h" "collisionClass (h a) = solid"
  shows "sameShape h (resolvePair a b h)"
proof (cases "a \<noteq> b \<and> 0 < getCollisionOverlap (h a) (h b)")
  case False
  then have "resolvePair a b h = h" by (auto simp add: resolvePair_def Let_def)
  then show ?thesis by (simp add: sameShape_refl)
next
  case True
  with assms have "collisionClass (h b) \<noteq> solid" by (auto simp add: solidsApart_def)
  then have "collisionClass (h b) = massless" by (cases "collisionClass (h b)") auto
  with True have "resolvePair a b h = collided a b h" by (simp add: resolvePair_massless)
  then show ?thesis by (simp add: sameShape_def collided_shape)
qed

lemma scan_hits:
  assumes "solidsApart es h" "a \<in> set es" "set bs \<subseteq> set es" "collisionClass (h a) = solid"
  shows "sameShape h (fold (resolvePair a) bs h)
    \<and> (\<forall>b\<in>set bs. collisionClass (h b) = massless \<and> 0 < getCollisionOverlap (h a) (h b)
          \<longrightarrow> dead (fold (resolvePair a) bs h b))"
  using assms
proof (induction bs arbitrary: h)
  case Nil
  then show ?case by (simp add: sameShape_refl)
next
  case (Cons b bs)
  let ?h1 = "resolvePair a b h"
  have b: "b \<in> set es" and bs: "set bs \<subseteq> set es" using Cons.prems(3) by auto
  have s1: "sameShape h ?h1"
    by (rule resolvePair_sameShape [OF Cons.prems(2) b Cons.prems(1) Cons.prems(4)])
  have apart1: "solidsApart es ?h1" by (rule sameShape_solidsApart [OF s1 Cons.prems(1)])
  have solid1: "collisionClass (?h1 a) = solid"
    using Cons.prems(4) by (simp add: sameShape_class [OF s1])
  note ih = Cons.IH [OF apart1 Cons.prems(2) bs solid1]
  have shape: "sameShape h (fold (resolvePair a) (b # bs) h)"
    using sameShape_trans [OF s1] ih by simp
  have hits: "dead (fold (resolvePair a) (b # bs) h c)"
    if c: "c \<in> set (b # bs)" "collisionClass (h c) = massless" "0 < getCollisionOverlap (h a) (h c)"
    for c
  proof (cases "c = b")
    case True
    have ne: "a \<noteq> b" using Cons.prems(4) c(2) True by auto
    have "?h1 = collided a b h" using c True ne by (simp add: resolvePair_massless)
    then have d1: "dead (?h1 b)" using ne by (simp add: collided_other_dead)
    have m1: "collisionClass (?h1 b) = massless" using c(2) True by (simp add: sameShape_class [OF s1])
    show ?thesis
      using scan_keeps_massless_dead [where h = "?h1" and a = a and r = b and bs = bs] solid1 m1 d1 True
      by simp
  next
    case False
    then have cb: "c \<in> set bs" using c(1) by simp
    have "collisionClass (?h1 c) = massless" using c(2) by (simp add: sameShape_class [OF s1])
    moreover have "0 < getCollisionOverlap (?h1 a) (?h1 c)" using c(3) by (simp add: sameShape_overlap [OF s1])
    ultimately show ?thesis using ih cb by simp
  qed
  show ?case using shape hits by blast
qed

lemma pass_hits:
  assumes "solidsApart es h" "set as \<subseteq> set es"
  shows "sameShape h (fold (resolveFor es) as h)
    \<and> (\<forall>a\<in>set as. \<forall>b\<in>set es.
          collisionClass (h a) = solid \<and> collisionClass (h b) = massless
          \<and> 0 < getCollisionOverlap (h a) (h b)
          \<longrightarrow> dead (fold (resolveFor es) as h b))"
  using assms
proof (induction as arbitrary: h)
  case Nil
  then show ?case by (simp add: sameShape_refl)
next
  case (Cons a as)
  let ?h1 = "resolveFor es a h"
  have a: "a \<in> set es" and as: "set as \<subseteq> set es" using Cons.prems(2) by auto
  have scan: "sameShape h ?h1
      \<and> (collisionClass (h a) = solid \<longrightarrow>
           (\<forall>b\<in>set es. collisionClass (h b) = massless \<and> 0 < getCollisionOverlap (h a) (h b)
              \<longrightarrow> dead (?h1 b)))"
  proof (cases "collisionClass (h a) = solid")
    case True
    then show ?thesis
      using scan_hits [OF Cons.prems(1) a subset_refl True] by (simp add: resolveFor_def)
  next
    case False
    then show ?thesis by (simp add: resolveFor_def sameShape_refl)
  qed
  then have s1: "sameShape h ?h1" by simp
  have apart1: "solidsApart es ?h1" by (rule sameShape_solidsApart [OF s1 Cons.prems(1)])
  note ih = Cons.IH [OF apart1 as]
  have shape: "sameShape h (fold (resolveFor es) (a # as) h)"
    using sameShape_trans [OF s1] ih by simp
  have hits: "dead (fold (resolveFor es) (a # as) h b)"
    if c: "c \<in> set (a # as)" "b \<in> set es" "collisionClass (h c) = solid"
      "collisionClass (h b) = massless" "0 < getCollisionOverlap (h c) (h b)"
    for c b
  proof (cases "c = a")
    case True
    then have d1: "dead (?h1 b)" using scan c by simp
    have m1: "collisionClass (?h1 b) = massless" using c(4) by (simp add: sameShape_class [OF s1])
    show ?thesis using pass_keeps_massless_dead [where h = "?h1" and r = b and es = es and as = as] m1 d1 by simp
  next
    case False
    then have ca: "c \<in> set as" using c(1) by simp
    have "collisionClass (?h1 c) = solid" using c(3) by (simp add: sameShape_class [OF s1])
    moreover have "collisionClass (?h1 b) = massless" using c(4) by (simp add: sameShape_class [OF s1])
    moreover have "0 < getCollisionOverlap (?h1 c) (?h1 b)" using c(5) by (simp add: sameShape_overlap [OF s1])
    ultimately show ?thesis using ih ca c(2) by simp
  qed
  show ?case using shape hits by blast
qed

lemma all_massless_pass:
  assumes "\<forall>e\<in>set as. collisionClass (h e) = massless"
  shows "fold (resolveFor es) as h = h"
  using assms by (induction as) (simp_all add: resolveFor_def)

text \<open>
  C8, as amended. When the resolver examines a solid \<open>a\<close> against a massless \<open>b\<close> that
  overlaps it at that moment, \<open>b\<close> is marked dead, whatever \<open>a\<close> does in reaction, and stays
  dead through the rest of the scan of \<open>a\<close> and through every later scan of the pass. When
  no two solid entities of the live set overlap, every massless entity of the live set
  that overlaps a solid one when the pass starts is dead when it ends. A massless entity
  scans nothing, so a live set of massless entities is left as it is however they overlap.
\<close>

theorem massless_consumed_when_examined:
  "(collisionClass (h a) = solid \<and> collisionClass (h b) = massless
      \<and> 0 < getCollisionOverlap (h a) (h b) \<longrightarrow>
      dead (resolvePair a b h b)
      \<and> dead (fold (resolvePair a) bs (resolvePair a b h) b)
      \<and> dead (fold (resolveFor es) as (fold (resolvePair a) bs (resolvePair a b h)) b))
   \<and> ((\<forall>p\<in>set (entities st). \<forall>q\<in>set (entities st).
          p \<noteq> q \<and> collisionClass (heap st p) = solid \<and> collisionClass (heap st q) = solid
          \<longrightarrow> \<not> 0 < getCollisionOverlap (heap st p) (heap st q)) \<longrightarrow>
       (\<forall>p\<in>set (entities st). \<forall>q\<in>set (entities st).
          collisionClass (heap st p) = solid \<and> collisionClass (heap st q) = massless
          \<and> 0 < getCollisionOverlap (heap st p) (heap st q)
          \<longrightarrow> dead (heap (findAndResolveCollisions st) q)))
   \<and> (collisionClass (h c) = massless \<longrightarrow> resolveFor es c h = h)
   \<and> ((\<forall>e\<in>set (entities st). collisionClass (heap st e) = massless) \<longrightarrow>
        findAndResolveCollisions st = st)"
proof (intro conjI impI)
  assume p: "collisionClass (h a) = solid \<and> collisionClass (h b) = massless
      \<and> 0 < getCollisionOverlap (h a) (h b)"
  then have ne: "a \<noteq> b" by auto
  let ?h1 = "resolvePair a b h"
  have "?h1 = collided a b h" using p ne by (simp add: resolvePair_massless)
  then show d1: "dead (?h1 b)" using ne by (simp add: collided_other_dead)
  have m1: "collisionClass (?h1 b) = massless" and s1: "collisionClass (?h1 a) = solid"
    using p by (simp_all add: resolvePair_collisionClass)
  have rest: "collisionClass (fold (resolvePair a) bs ?h1 b) = massless
      \<and> dead (fold (resolvePair a) bs ?h1 b)"
    using scan_keeps_massless_dead [where h = "?h1" and a = a and r = b and bs = bs] s1 m1 d1
    by simp
  then show "dead (fold (resolvePair a) bs ?h1 b)" by simp
  show "dead (fold (resolveFor es) as (fold (resolvePair a) bs ?h1) b)"
    using pass_keeps_massless_dead [where h = "fold (resolvePair a) bs ?h1" and r = b
        and es = es and as = as] rest by simp
next
  assume "\<forall>p\<in>set (entities st). \<forall>q\<in>set (entities st).
          p \<noteq> q \<and> collisionClass (heap st p) = solid \<and> collisionClass (heap st q) = solid
          \<longrightarrow> \<not> 0 < getCollisionOverlap (heap st p) (heap st q)"
  then have "solidsApart (entities st) (heap st)" by (simp add: solidsApart_def)
  from pass_hits [OF this subset_refl]
  show "\<forall>p\<in>set (entities st). \<forall>q\<in>set (entities st).
          collisionClass (heap st p) = solid \<and> collisionClass (heap st q) = massless
          \<and> 0 < getCollisionOverlap (heap st p) (heap st q)
          \<longrightarrow> dead (heap (findAndResolveCollisions st) q)"
    by (simp add: findAndResolveCollisions_def)
next
  assume "collisionClass (h c) = massless"
  then show "resolveFor es c h = h" by (simp add: resolveFor_def)
next
  assume "\<forall>e\<in>set (entities st). collisionClass (heap st e) = massless"
  then show "findAndResolveCollisions st = st"
    by (simp add: findAndResolveCollisions_def all_massless_pass)
qed

text \<open>
  C8 as stated fails: the shot overlaps the first bot when the pass starts, the bots are
  pushed apart before the first bot is checked against the shot, and the shot is alive
  when the pass ends.
\<close>

theorem massless_overlapping_survives_counterexample:
  "0 \<in> set (entities grazingExample) \<and> 2 \<in> set (entities grazingExample)
   \<and> collisionClass (heap grazingExample 0) = solid
   \<and> collisionClass (heap grazingExample 2) = massless
   \<and> 0 < getCollisionOverlap (heap grazingExample 0) (heap grazingExample 2)
   \<and> \<not> dead (heap (findAndResolveCollisions grazingExample) 2)"
  by (simp add: pass_simps grazingExample_def newBot_def newShot_def shotRadius_def
      overlap_pos_squared overlap_level atan2_def)

lemma crossfire_facts:
  "collisionClass (heap crossfireExample 0) = solid"
  "collisionClass (heap crossfireExample 2) = massless"
  "0 < getCollisionOverlap (heap crossfireExample 0) (heap crossfireExample 2)"
  "\<forall>p\<in>set (entities crossfireExample). \<forall>q\<in>set (entities crossfireExample).
      p \<noteq> q \<and> collisionClass (heap crossfireExample p) = solid
      \<and> collisionClass (heap crossfireExample q) = solid
      \<longrightarrow> \<not> 0 < getCollisionOverlap (heap crossfireExample p) (heap crossfireExample q)"
  "0 \<in> set (entities crossfireExample)" "2 \<in> set (entities crossfireExample)"
  by (simp_all add: crossfireExample_def newBot_def newShot_def shotRadius_def
      overlap_pos_squared)

lemma twoShots_facts:
  "\<forall>e\<in>set (entities twoShotsExample). collisionClass (heap twoShotsExample e) = massless"
  "0 < getCollisionOverlap (heap twoShotsExample 0) (heap twoShotsExample 1)"
  "entities twoShotsExample = [0, 1]"
  "collisionClass (heap twoShotsExample 0) = massless"
  "collisionClass (heap twoShotsExample 1) = massless"
  by (simp_all add: twoShotsExample_def newShot_def shotRadius_def overlap_pos_squared)

theorem massless_consumed_when_examined_witness:
  "collisionClass (heap crossfireExample 0) = solid
   \<and> collisionClass (heap crossfireExample 2) = massless
   \<and> 0 < getCollisionOverlap (heap crossfireExample 0) (heap crossfireExample 2)
   \<and> dead (resolvePair 0 2 (heap crossfireExample) 2)
   \<and> dead (heap (findAndResolveCollisions crossfireExample) 2)
   \<and> resolveFor (entities crossfireExample) 2 (heap crossfireExample) = heap crossfireExample
   \<and> entities twoShotsExample = [0, 1]
   \<and> collisionClass (heap twoShotsExample 0) = massless
   \<and> collisionClass (heap twoShotsExample 1) = massless
   \<and> 0 < getCollisionOverlap (heap twoShotsExample 0) (heap twoShotsExample 1)
   \<and> findAndResolveCollisions twoShotsExample = twoShotsExample"
proof -
  note t1 = massless_consumed_when_examined [where h = "heap crossfireExample" and a = 0
      and b = 2 and c = 2 and bs = "[]" and as = "[]" and es = "entities crossfireExample"
      and st = crossfireExample]
  note t2 = massless_consumed_when_examined [where h = "heap crossfireExample" and a = 0
      and b = 2 and c = 2 and bs = "[]" and as = "[]" and es = "entities crossfireExample"
      and st = twoShotsExample]
  have "dead (resolvePair 0 2 (heap crossfireExample) 2)"
    using t1 crossfire_facts(1,2,3) by blast
  moreover have "dead (heap (findAndResolveCollisions crossfireExample) 2)"
    using t1 crossfire_facts by blast
  moreover have "resolveFor (entities crossfireExample) 2 (heap crossfireExample) = heap crossfireExample"
    using t1 crossfire_facts(2) by blast
  moreover have "findAndResolveCollisions twoShotsExample = twoShotsExample"
    using t2 twoShots_facts(1) by blast
  ultimately show ?thesis using crossfire_facts(1,2,3) twoShots_facts by blast
qed

subsection \<open>Death is permanent\<close>

lemma vitals_sound: "vitals e' = vitals e \<Longrightarrow> sound e' = sound e"
  by (simp add: vitals_def sound_def isShip_def isProjectile_def)

lemma vitals_dead: "vitals e' = vitals e \<Longrightarrow> dead e' = dead e"
  by (simp add: vitals_def)

lemma vitals_update: "vitals (update e) = vitals e"
  by (simp add: vitals_def update_def)

lemma vitals_think:
  "think this environment = Returned this' \<Longrightarrow> vitals this' = vitals this"
  "think this environment = Threw this' \<Longrightarrow> vitals this' = vitals this"
  by (auto simp add: think_def vitals_def Let_def split: if_splits prod.splits option.splits)

lemma sound_newShot: "sound (newShot src sx sy dir)"
  by (simp add: sound_def newShot_def isShip_def isProjectile_def)

lemma aged_refl: "\<forall>r<n. sound (h r) \<Longrightarrow> aged n h h"
  by (simp add: aged_def)

lemma sound_collidedInternal:
  assumes "sound this" "sound other"
  shows "sound (collidedInternal this other)"
    and "dead this \<Longrightarrow> dead (collidedInternal this other)"
proof -
  show "sound (collidedInternal this other)"
  proof (cases "isShip this \<and> isProjectile other")
    case True
    then show ?thesis using assms
      by (simp add: collidedInternal_def Let_def sound_def isShip_def isProjectile_def)
  next
    case False
    then have "collidedInternal this other = this" by (auto simp add: collidedInternal_def)
    then show ?thesis using assms by simp
  qed
  show "dead (collidedInternal this other)" if d: "dead this"
  proof (cases "isShip this \<and> isProjectile other")
    case True
    then have "health this \<le> 0" "0 \<le> damage other" using assms d by (simp_all add: sound_def)
    then show ?thesis using True by (simp add: collidedInternal_def Let_def)
  next
    case False
    then have "collidedInternal this other = this" by (auto simp add: collidedInternal_def)
    then show ?thesis using d by simp
  qed
qed

lemma sound_marked_dead:
  assumes "sound e" "\<not> isShip e"
  shows "sound (e\<lparr> dead := d \<rparr>)"
  using assms by (simp add: sound_def isShip_def isProjectile_def)

lemma sound_boundedEntity:
  assumes "sound e"
  shows "sound (boundedEntity e)" and "dead e \<Longrightarrow> dead (boundedEntity e)"
proof -
  show "sound (boundedEntity e)"
  proof (cases "isProjectile e")
    case True
    then have "\<not> isShip e" by (auto simp add: isShip_def isProjectile_def)
    then show ?thesis using assms True
      by (simp add: boundedEntity_def sound_marked_dead)
  next
    case False
    then show ?thesis using assms
      by (simp add: boundedEntity_def sound_def isShip_def isProjectile_def)
  qed
  show "dead (boundedEntity e)" if "dead e"
    using that by (simp add: boundedEntity_def)
qed

lemma collided_apart:
  assumes "a \<noteq> b"
  shows "collided a b h = h(b := (h b)\<lparr> dead := True \<rparr>,
                            a := collidedInternal (h a) ((h b)\<lparr> dead := True \<rparr>))"
  using assms by (simp add: collided_def isEntity_def Let_def)

lemma aged_resolvePair:
  assumes "a < n" "b < n" "aged n h0 h"
  shows "aged n h0 (resolvePair a b h)"
proof (cases "a \<noteq> b \<and> 0 < getCollisionOverlap (h a) (h b)")
  case False
  then have "resolvePair a b h = h" by (auto simp add: resolvePair_def Let_def)
  with assms show ?thesis by simp
next
  case True
  show ?thesis
  proof (cases "collisionClass (h b) = solid")
    case solid: True
    have v: "vitals (resolvePair a b h r) = vitals (h r)" for r
      using True solid by (simp add: resolvePair_def Let_def vitals_def)
    show ?thesis
      using assms(3) unfolding aged_def vitals_sound [OF v] vitals_dead [OF v] .
  next
    case False
    have ne: "a \<noteq> b" using True by simp
    have res: "resolvePair a b h = collided a b h"
      using True False by (simp add: resolvePair_def Let_def)
    have sa: "sound (h a)" and sb: "sound (h b)" using assms by (simp_all add: aged_def)
    have nb: "\<not> isShip (h b)" using sb False by (auto simp add: sound_def)
    have sb': "sound ((h b)\<lparr> dead := True \<rparr>)" by (rule sound_marked_dead [OF sb nb])
    note ci = sound_collidedInternal [OF sa sb']
    show ?thesis
      unfolding res aged_def collided_apart [OF ne]
    proof (intro allI impI)
      fix r assume r: "r < n"
      have old: "sound (h r) \<and> (dead (h0 r) \<longrightarrow> dead (h r))" using assms(3) r by (simp add: aged_def)
      consider "r = a" | "r = b" "r \<noteq> a" | "r \<noteq> a" "r \<noteq> b" by blast
      then show "sound ((h(b := (h b)\<lparr> dead := True \<rparr>,
                  a := collidedInternal (h a) ((h b)\<lparr> dead := True \<rparr>))) r)
          \<and> (dead (h0 r) \<longrightarrow> dead ((h(b := (h b)\<lparr> dead := True \<rparr>,
                  a := collidedInternal (h a) ((h b)\<lparr> dead := True \<rparr>))) r))"
      proof cases
        case 1 then show ?thesis using ci old by simp
      next
        case 2 then show ?thesis using sb' by simp
      next
        case 3 then show ?thesis using old by simp
      qed
    qed
  qed
qed

lemma aged_resolveFor:
  assumes "a < n" "\<forall>e\<in>set es. e < n" "aged n h0 h"
  shows "aged n h0 (resolveFor es a h)"
proof (cases "collisionClass (h a) = solid")
  case True
  have "aged n h0 (fold (resolvePair a) es h)"
  proof (rule fold_invariant [where I = "aged n h0"])
    show "aged n h0 h" by (rule assms(3))
  next
    fix b s assume "b \<in> set es" "aged n h0 s"
    then show "aged n h0 (resolvePair a b s)" using assms(1,2) by (simp add: aged_resolvePair)
  qed
  then show ?thesis using True by (simp add: resolveFor_def)
next
  case False
  then show ?thesis using assms by (simp add: resolveFor_def)
qed

lemma aged_pass:
  assumes "\<forall>e\<in>set es. e < n" "\<forall>e\<in>set as. e < n" "aged n h0 h"
  shows "aged n h0 (fold (resolveFor es) as h)"
proof (rule fold_invariant [where I = "aged n h0"])
  show "aged n h0 h" by (rule assms(3))
next
  fix a s assume "a \<in> set as" "aged n h0 s"
  then show "aged n h0 (resolveFor es a s)" using assms(1,2) by (simp add: aged_resolveFor)
qed

lemma aged_enforceBoundsOn:
  assumes "aged n h0 h"
  shows "aged n h0 (enforceBoundsOn e h)"
  unfolding aged_def enforceBoundsOn_eq
proof (intro allI impI)
  fix r assume r: "r < n"
  have old: "sound (h r) \<and> (dead (h0 r) \<longrightarrow> dead (h r))" using assms r by (simp add: aged_def)
  show "sound ((h(e := boundedEntity (h e))) r)
      \<and> (dead (h0 r) \<longrightarrow> dead ((h(e := boundedEntity (h e))) r))"
    using old sound_boundedEntity [of "h r"] by (cases "r = e") simp_all
qed

lemma aged_bounds:
  assumes "aged n h0 h"
  shows "aged n h0 (fold enforceBoundsOn es h)"
proof (rule fold_invariant [where I = "aged n h0"])
  show "aged n h0 h" by (rule assms)
next
  fix e s assume "aged n h0 s"
  then show "aged n h0 (enforceBoundsOn e s)" by (rule aged_enforceBoundsOn)
qed

lemma extends_refl: "extends st st"
  by (simp add: extends_def)

lemma extends_trans:
  assumes "extends st st'" "extends st' st''"
  shows "extends st st''"
  unfolding extends_def
proof (intro conjI allI impI)
  show "nextRef st \<le> nextRef st''" using assms by (simp add: extends_def)
  show "entities st'' = entities st" using assms by (simp add: extends_def)
next
  fix r assume "r < nextRef st"
  then show "vitals (heap st'' r) = vitals (heap st r)" using assms by (simp add: extends_def)
next
  fix r assume r: "r < nextRef st''" "nextRef st \<le> r"
  show "sound (heap st'' r)"
  proof (cases "r < nextRef st'")
    case True
    then have v: "vitals (heap st'' r) = vitals (heap st' r)" using assms(2) by (simp add: extends_def)
    have "sound (heap st' r)" using assms(1) r True by (simp add: extends_def)
    then show ?thesis by (simp only: vitals_sound [OF v])
  next
    case False
    then show ?thesis using assms(2) r by (simp add: extends_def)
  qed
qed

lemma extends_sound:
  assumes "extends st st'" "\<forall>r<nextRef st. sound (heap st r)"
  shows "\<forall>r<nextRef st'. sound (heap st' r)"
proof (intro allI impI)
  fix r assume r: "r < nextRef st'"
  show "sound (heap st' r)"
  proof (cases "r < nextRef st")
    case True
    then have v: "vitals (heap st' r) = vitals (heap st r)" using assms(1) by (simp add: extends_def)
    show ?thesis using assms(2) True unfolding vitals_sound [OF v] by simp
  next
    case False
    then show ?thesis using assms(1) r by (simp add: extends_def)
  qed
qed

lemma extends_dead:
  assumes "extends st st'" "r < nextRef st"
  shows "dead (heap st' r) = dead (heap st r)"
proof -
  have v: "vitals (heap st' r) = vitals (heap st r)" using assms by (simp add: extends_def)
  show ?thesis by (rule vitals_dead [OF v])
qed

lemma extends_moved:
  "extends st (st\<lparr> heap := (heap st)(e := update (heap st e)) \<rparr>)"
  by (simp add: extends_def vitals_update)

lemma extends_updateWithEnvironment:
  assumes "e < nextRef st"
  shows "case updateWithEnvironment e st of
           Threw st' \<Rightarrow> extends st st'
         | Returned (st', res) \<Rightarrow> extends st st' \<and> (\<forall>r\<in>set res. r < nextRef st')"
proof (cases "isShip (heap st e)")
  case False
  then show ?thesis by (simp add: updateWithEnvironment_def extends_refl)
next
  case ship: True
  show ?thesis
  proof (cases "think (heap st e) (getEnvironment st e)")
    case (Threw this)
    have "vitals this = vitals (heap st e)" by (rule vitals_think(2) [OF Threw])
    then show ?thesis using ship Threw by (simp add: updateWithEnvironment_def extends_def)
  next
    case (Returned this)
    have v: "vitals this = vitals (heap st e)" by (rule vitals_think(1) [OF Returned])
    have v1: "vitals (this\<lparr> shootTimer := t \<rparr>) = vitals (heap st e)" for t
      using v by (simp add: vitals_def)
    show ?thesis
    proof (cases "shoot this \<and> shootTimer this \<le> 0")
      case True
      then show ?thesis using ship Returned assms v1
        by (simp add: updateWithEnvironment_def Let_def extends_def sound_newShot)
    next
      case False
      then show ?thesis using ship Returned assms v v1
        by (auto simp add: updateWithEnvironment_def Let_def extends_def)
    qed
  qed
qed

lemma extends_updateLoop:
  assumes "\<forall>e\<in>set es. e < nextRef st" "\<forall>r\<in>set newEntities. r < nextRef st"
  shows "case updateLoop inCombat es st newEntities of
           Threw st' \<Rightarrow> extends st st'
         | Returned (st', res) \<Rightarrow> extends st st' \<and> (\<forall>r\<in>set res. r < nextRef st')"
  using assms
proof (induction es arbitrary: st newEntities)
  case Nil
  then show ?case by (simp add: extends_refl)
next
  case (Cons e es)
  let ?st1 = "st\<lparr> heap := (heap st)(e := update (heap st e)) \<rparr>"
  have e1: "extends st ?st1" by (rule extends_moved)
  have n1: "nextRef ?st1 = nextRef st" by simp
  show ?case
  proof (cases "inCombat \<and> isScriptable (heap ?st1 e)")
    case False
    have "case updateLoop inCombat es ?st1 newEntities of
           Threw st' \<Rightarrow> extends ?st1 st'
         | Returned (st', res) \<Rightarrow> extends ?st1 st' \<and> (\<forall>r\<in>set res. r < nextRef st')"
      by (rule Cons.IH) (use Cons.prems in auto)
    then show ?thesis using False e1
      by (auto simp add: Let_def split: completion.splits dest: extends_trans [OF e1])
  next
    case True
    have uwe: "case updateWithEnvironment e ?st1 of
           Threw st' \<Rightarrow> extends ?st1 st'
         | Returned (st', res) \<Rightarrow> extends ?st1 st' \<and> (\<forall>r\<in>set res. r < nextRef st')"
      by (rule extends_updateWithEnvironment) (use Cons.prems in simp)
    show ?thesis
    proof (cases "updateWithEnvironment e ?st1")
      case (Threw st2)
      then show ?thesis using True uwe extends_trans [OF e1] by (simp add: Let_def)
    next
      case (Returned p)
      obtain st2 res where p: "p = (st2, res)" by (cases p)
      have e2: "extends ?st1 st2" and r2: "\<forall>r\<in>set res. r < nextRef st2"
        using uwe Returned p by simp_all
      have e02: "extends st st2" by (rule extends_trans [OF e1 e2])
      have le: "nextRef st \<le> nextRef st2" using e02 by (simp add: extends_def)
      have "case updateLoop inCombat es st2 (newEntities @ res) of
           Threw st' \<Rightarrow> extends st2 st'
         | Returned (st', res') \<Rightarrow> extends st2 st' \<and> (\<forall>r\<in>set res'. r < nextRef st')"
        by (rule Cons.IH) (use Cons.prems le r2 in auto)
      then show ?thesis using True Returned p
        by (auto simp add: Let_def split: completion.splits dest: extends_trans [OF e02])
    qed
  qed
qed

lemma checkForEnd_frame:
  "heap (checkForEnd bots st) = heap st" "entities (checkForEnd bots st) = entities st"
  "nextRef (checkForEnd bots st) = nextRef st"
  by (simp_all add: checkForEnd_def)

lemma tick_ages:
  assumes "wellFormed st"
  shows "wellFormed (tick st) \<and> nextRef st \<le> nextRef (tick st)
    \<and> (\<forall>r<nextRef st. dead (heap st r) \<longrightarrow> dead (heap (tick st) r))"
proof (cases "startTimer st > 0")
  case True
  then have "tick st = st\<lparr> startTimer := startTimer st - 1 \<rparr>"
    by (simp add: tick_def updateEntities_def)
  then show ?thesis using assms by (simp add: wellFormed_def)
next
  case False
  let ?bots = "filter (\<lambda>e. isBot (heap st e)) (entities st)"
  let ?loop = "updateLoop (length ?bots > 1) (entities st) st []"
  have refs: "\<forall>e\<in>set (entities st). e < nextRef st"
    and snd: "\<forall>r<nextRef st. sound (heap st r)"
    using assms by (simp_all add: wellFormed_def)
  have loop: "case ?loop of
           Threw st' \<Rightarrow> extends st st'
         | Returned (st', res) \<Rightarrow> extends st st' \<and> (\<forall>r\<in>set res. r < nextRef st')"
    by (rule extends_updateLoop) (use refs in simp_all)
  show ?thesis
  proof (cases ?loop)
    case (Threw st1)
    then have t: "tick st = st1" using False by (simp add: tick_def updateEntities_def Let_def)
    have e: "extends st st1" using loop Threw by simp
    have "\<forall>r<nextRef st1. sound (heap st1 r)" by (rule extends_sound [OF e snd])
    moreover have "\<forall>e\<in>set (entities st1). e < nextRef st1"
      using e refs by (auto simp add: extends_def)
    ultimately have "wellFormed st1" by (simp add: wellFormed_def)
    then show ?thesis unfolding t using e extends_dead [OF e] by (simp add: extends_def)
  next
    case (Returned p)
    obtain st1 new where p: "p = (st1, new)" by (cases p)
    have e: "extends st st1" and new: "\<forall>r\<in>set new. r < nextRef st1"
      using loop Returned p by simp_all
    define n where "n = nextRef st1"
    define es where "es = entities st1 @ new"
    define h4 where "h4 = fold enforceBoundsOn es (fold (resolveFor es) es (heap st1))"
    have s1: "\<forall>r<n. sound (heap st1 r)" unfolding n_def by (rule extends_sound [OF e snd])
    have es: "\<forall>e\<in>set es. e < n" using e refs new by (auto simp add: extends_def es_def n_def)
    have a3: "aged n (heap st1) (fold (resolveFor es) es (heap st1))"
      by (rule aged_pass [OF es es aged_refl [OF s1]])
    have a4: "aged n (heap st1) h4" unfolding h4_def by (rule aged_bounds [OF a3])
    have hp: "heap (tick st) = h4" and np: "nextRef (tick st) = n"
      and ep: "entities (tick st) = filter (\<lambda>e. \<not> dead (h4 e)) es"
      unfolding h4_def es_def n_def using False Returned p
      by (simp_all add: tick_def updateEntities_def Let_def findAndResolveCollisions_def
          enforceBounds_def reap_def checkForEnd_frame)
    have "\<forall>e\<in>set (entities (tick st)). e < nextRef (tick st)"
      unfolding ep np using es by simp
    moreover have "\<forall>r<nextRef (tick st). sound (heap (tick st) r)"
      unfolding hp np using a4 by (simp add: aged_def)
    ultimately have wf: "wellFormed (tick st)" by (simp add: wellFormed_def)
    have le: "nextRef st \<le> n" using e by (simp add: extends_def n_def)
    have "dead (heap (tick st) r)" if r: "r < nextRef st" "dead (heap st r)" for r
    proof -
      have "dead (heap st1 r)" using extends_dead [OF e r(1)] r(2) by simp
      moreover have "r < n" using r(1) le by simp
      ultimately show ?thesis unfolding hp using a4 by (simp add: aged_def)
    qed
    then show ?thesis using wf le np by simp
  qed
qed

lemma ticks_age:
  assumes "wellFormed st"
  shows "wellFormed ((tick ^^ n) st) \<and> nextRef st \<le> nextRef ((tick ^^ n) st)
    \<and> (\<forall>r<nextRef st. dead (heap st r) \<longrightarrow> dead (heap ((tick ^^ n) st) r))"
proof (induction n)
  case 0
  then show ?case using assms by simp
next
  case (Suc n)
  let ?s = "(tick ^^ n) st"
  have wf: "wellFormed ?s" using Suc by simp
  note step = tick_ages [OF wf]
  have "dead (heap (tick ?s) r)" if "r < nextRef st" "dead (heap st r)" for r
  proof -
    have "dead (heap ?s r)" "r < nextRef ?s" using Suc that by auto
    then show ?thesis using step by simp
  qed
  moreover have "nextRef st \<le> nextRef (tick ?s)" using Suc step by simp
  ultimately show ?case using step by simp
qed

text \<open>
  C2. In a well-formed state (as \<^verbatim>\<open>start\<close> produces and every tick keeps), an allocated
  entity that is dead is dead after any number of ticks, whether they return or throw. In
  particular the collision handler of a dead ship, which assigns \<open>dead = (health \<le> 0)\<close>,
  leaves it dead whatever entity it collided with.
\<close>

theorem dead_is_permanent:
  assumes "wellFormed st" and "r < nextRef st" and "dead (heap st r)"
  shows "dead (heap ((tick ^^ n) st) r)
    \<and> (\<forall>a<nextRef st. \<forall>b<nextRef st.
          isShip (heap st a) \<and> dead (heap st a) \<longrightarrow> dead (collidedInternal (heap st a) (heap st b)))"
proof -
  have "dead (heap ((tick ^^ n) st) r)" using ticks_age [OF assms(1), of n] assms(2,3) by simp
  moreover have "dead (collidedInternal (heap st a) (heap st b))"
    if "a < nextRef st" "b < nextRef st" "dead (heap st a)" for a b
    using that assms(1) sound_collidedInternal(2) [of "heap st a" "heap st b"]
    by (simp add: wellFormed_def)
  ultimately show ?thesis by simp
qed

lemma start_wellFormed: "wellFormed (start r1 r2 r3 r4 left leftHandler right rightHandler)"
  by (simp add: wellFormed_def start_def sound_def newBot_def isShip_def isProjectile_def
      All_less_Suc2 numeral_eq_Suc)

lemma fallen_facts:
  "wellFormed fallenExample" "0 < nextRef fallenExample" "dead (heap fallenExample 0)"
  "isShip (heap fallenExample 0)" "2 < nextRef fallenExample"
  "isProjectile (heap fallenExample 2)"
  "health (collidedInternal (heap fallenExample 0) (heap fallenExample 2)) = - 10"
  by (simp_all add: wellFormed_def fallenExample_def sound_def newBot_def newShot_def
      isShip_def isProjectile_def collidedInternal_def Let_def All_less_Suc2 numeral_eq_Suc)

theorem dead_is_permanent_witness:
  "wellFormed fallenExample \<and> 0 < nextRef fallenExample \<and> dead (heap fallenExample 0)
   \<and> dead (heap ((tick ^^ 3) fallenExample) 0)
   \<and> isShip (heap fallenExample 0) \<and> isProjectile (heap fallenExample 2)
   \<and> dead (collidedInternal (heap fallenExample 0) (heap fallenExample 2))
   \<and> health (collidedInternal (heap fallenExample 0) (heap fallenExample 2)) = - 10"
  using dead_is_permanent [OF fallen_facts(1) fallen_facts(2) fallen_facts(3), of 3] fallen_facts
  by blast

subsection \<open>The enemy of a ship\<close>

text \<open>
  No step of the program turns a massless projectile into anything else, and the only
  entities it allocates after \<^verbatim>\<open>start\<close> are shots.
\<close>

lemma vitals_shotKind: "vitals e' = vitals e \<Longrightarrow> shotKind e' = shotKind e"
  by (simp add: vitals_def shotKind_def isProjectile_def)

lemma shotKind_newShot: "shotKind (newShot src sx sy dir)"
  by (simp add: shotKind_def newShot_def isProjectile_def)

lemma keepsShots_refl: "keepsShots h h"
  by (simp add: keepsShots_def)

lemma keepsShots_trans: "keepsShots h h' \<Longrightarrow> keepsShots h' h'' \<Longrightarrow> keepsShots h h''"
  by (simp add: keepsShots_def)

lemma keepsShots_at: "shotKind (f (h e)) = shotKind (h e) \<Longrightarrow> keepsShots h (h(e := f (h e)))"
  by (simp add: keepsShots_def)

lemma keepsShots_moved: "keepsShots h (h(e := update (h e)))"
  by (rule keepsShots_at) (rule vitals_shotKind [OF vitals_update])

lemma keepsShots_updateWithEnvironment:
  "case updateWithEnvironment e st of
     Threw st' \<Rightarrow> keepsShots (heap st) (heap st') \<and> entities st' = entities st
   | Returned (st', res) \<Rightarrow>
       keepsShots (heap st) (heap st') \<and> entities st' = entities st
       \<and> (\<forall>r\<in>set res. shotKind (heap st' r))"
proof (cases "isShip (heap st e)")
  case False
  then show ?thesis by (simp add: updateWithEnvironment_def keepsShots_refl)
next
  case ship: True
  show ?thesis
  proof (cases "think (heap st e) (getEnvironment st e)")
    case (Threw this)
    have "shotKind this = shotKind (heap st e)"
      by (rule vitals_shotKind [OF vitals_think(2) [OF Threw]])
    then show ?thesis using ship Threw by (simp add: updateWithEnvironment_def keepsShots_def)
  next
    case (Returned this)
    have v: "vitals this = vitals (heap st e)" by (rule vitals_think(1) [OF Returned])
    have k: "shotKind (this\<lparr> shootTimer := t \<rparr>) = shotKind (heap st e)" for t
      using vitals_shotKind [OF v] by (simp add: shotKind_def isProjectile_def)
    have k0: "shotKind this = shotKind (heap st e)" by (rule vitals_shotKind [OF v])
    show ?thesis
    proof (cases "shoot this \<and> shootTimer this \<le> 0")
      case True
      then show ?thesis using ship Returned k
        by (simp add: updateWithEnvironment_def Let_def keepsShots_def shotKind_newShot)
    next
      case False
      then show ?thesis using ship Returned k k0
        by (auto simp add: updateWithEnvironment_def Let_def keepsShots_def)
    qed
  qed
qed

lemma keepsShots_after:
  assumes "keepsShots h h1"
    and "case c of
           Threw st' \<Rightarrow> keepsShots h1 (heap st') \<and> entities st' = es
         | Returned (st', res) \<Rightarrow>
             keepsShots h1 (heap st') \<and> entities st' = es \<and> (\<forall>r\<in>set res. shotKind (heap st' r))"
  shows "case c of
           Threw st' \<Rightarrow> keepsShots h (heap st') \<and> entities st' = es
         | Returned (st', res) \<Rightarrow>
             keepsShots h (heap st') \<and> entities st' = es \<and> (\<forall>r\<in>set res. shotKind (heap st' r))"
proof (cases c)
  case (Threw st')
  then show ?thesis using assms keepsShots_trans [of h h1 "heap st'"] by simp
next
  case (Returned p)
  obtain st' res where p: "p = (st', res)" by (cases p)
  show ?thesis using assms keepsShots_trans [of h h1 "heap st'"] Returned p by simp
qed

lemma keepsShots_updateLoop:
  assumes "\<forall>r\<in>set newEntities. shotKind (heap st r)"
  shows "case updateLoop inCombat es st newEntities of
           Threw st' \<Rightarrow> keepsShots (heap st) (heap st') \<and> entities st' = entities st
         | Returned (st', res) \<Rightarrow>
             keepsShots (heap st) (heap st') \<and> entities st' = entities st
             \<and> (\<forall>r\<in>set res. shotKind (heap st' r))"
  using assms
proof (induction es arbitrary: st newEntities)
  case Nil
  then show ?case by (simp add: keepsShots_refl)
next
  case (Cons e es)
  define st1 where "st1 = st\<lparr> heap := (heap st)(e := update (heap st e)) \<rparr>"
  have h1: "heap st1 = (heap st)(e := update (heap st e))" and es1: "entities st1 = entities st"
    by (simp_all add: st1_def)
  have k1: "keepsShots (heap st) (heap st1)" unfolding h1 by (rule keepsShots_moved)
  have n1: "\<forall>r\<in>set newEntities. shotKind (heap st1 r)"
    using Cons.prems k1 by (simp add: keepsShots_def)
  show ?case
  proof (cases "inCombat \<and> isScriptable (heap st1 e)")
    case False
    have eq: "updateLoop inCombat (e # es) st newEntities = updateLoop inCombat es st1 newEntities"
      using False by (auto simp add: Let_def st1_def)
    have ih: "case updateLoop inCombat es st1 newEntities of
           Threw st' \<Rightarrow> keepsShots (heap st1) (heap st') \<and> entities st' = entities st
         | Returned (st', res) \<Rightarrow>
             keepsShots (heap st1) (heap st') \<and> entities st' = entities st
             \<and> (\<forall>r\<in>set res. shotKind (heap st' r))"
      using Cons.IH [OF n1] unfolding es1 .
    show ?thesis unfolding eq by (rule keepsShots_after [OF k1 ih])
  next
    case True
    have uwe: "case updateWithEnvironment e st1 of
           Threw st' \<Rightarrow> keepsShots (heap st1) (heap st') \<and> entities st' = entities st
         | Returned (st', res) \<Rightarrow>
             keepsShots (heap st1) (heap st') \<and> entities st' = entities st
             \<and> (\<forall>r\<in>set res. shotKind (heap st' r))"
      using keepsShots_updateWithEnvironment [where e = e and st = st1] unfolding es1 .
    show ?thesis
    proof (cases "updateWithEnvironment e st1")
      case (Threw st2)
      have eq: "updateLoop inCombat (e # es) st newEntities = Threw st2"
        using True Threw by (simp add: Let_def st1_def)
      show ?thesis unfolding eq using uwe Threw keepsShots_trans [OF k1, of "heap st2"] by simp
    next
      case (Returned p)
      obtain st2 res where p: "p = (st2, res)" by (cases p)
      have k2: "keepsShots (heap st1) (heap st2)" and e2: "entities st2 = entities st"
        and r2: "\<forall>r\<in>set res. shotKind (heap st2 r)"
        using uwe Returned p by simp_all
      have k02: "keepsShots (heap st) (heap st2)" by (rule keepsShots_trans [OF k1 k2])
      have n2: "\<forall>r\<in>set (newEntities @ res). shotKind (heap st2 r)"
        using n1 k2 r2 by (auto simp add: keepsShots_def)
      have eq: "updateLoop inCombat (e # es) st newEntities
                  = updateLoop inCombat es st2 (newEntities @ res)"
        using True Returned p by (simp add: Let_def st1_def)
      have ih: "case updateLoop inCombat es st2 (newEntities @ res) of
           Threw st' \<Rightarrow> keepsShots (heap st2) (heap st') \<and> entities st' = entities st
         | Returned (st', res') \<Rightarrow>
             keepsShots (heap st2) (heap st') \<and> entities st' = entities st
             \<and> (\<forall>r\<in>set res'. shotKind (heap st' r))"
        using Cons.IH [OF n2] unfolding e2 .
      show ?thesis unfolding eq by (rule keepsShots_after [OF k02 ih])
    qed
  qed
qed

lemma shotKind_resolvePair: "shotKind (resolvePair a b h r) = shotKind (h r)"
  by (simp add: shotKind_def isProjectile_def resolvePair_def collided_def collidedInternal_def
      isEntity_def Let_def)

lemma keepsShots_pass: "keepsShots h (fold (resolveFor es) as h)"
proof (rule fold_invariant [where I = "\<lambda>s::nat \<Rightarrow> MovingEntity. keepsShots h s"])
  show "keepsShots h h" by (rule keepsShots_refl)
next
  fix a and s :: "nat \<Rightarrow> MovingEntity"
  assume s: "keepsShots h s"
  have "keepsShots h (fold (resolvePair a) es s)"
  proof (rule fold_invariant [where I = "\<lambda>s::nat \<Rightarrow> MovingEntity. keepsShots h s"])
    show "keepsShots h s" by (rule s)
  next
    fix b and s' :: "nat \<Rightarrow> MovingEntity"
    assume "keepsShots h s'"
    then show "keepsShots h (resolvePair a b s')"
      by (simp add: keepsShots_def shotKind_resolvePair)
  qed
  then show "keepsShots h (resolveFor es a s)" using s by (simp add: resolveFor_def)
qed

lemma shotKind_boundedEntity: "shotKind (boundedEntity e) = shotKind e"
  by (simp add: shotKind_def boundedEntity_def isProjectile_def)

lemma keepsShots_bounds: "keepsShots h (fold enforceBoundsOn es h)"
proof (rule fold_invariant [where I = "\<lambda>s::nat \<Rightarrow> MovingEntity. keepsShots h s"])
  show "keepsShots h h" by (rule keepsShots_refl)
next
  fix e and s :: "nat \<Rightarrow> MovingEntity"
  assume "keepsShots h s"
  then show "keepsShots h (enforceBoundsOn e s)"
    by (simp add: keepsShots_def enforceBoundsOn_eq shotKind_boundedEntity)
qed

text \<open>
  Hence the live set keeps the shape of a match: at \<^verbatim>\<open>start\<close>, after the motion of an entity,
  after the behavior step of an entity, and after a whole tick, returned or thrown.
\<close>

lemma start_matchOfTwo: "matchOfTwo (start r1 r2 r3 r4 left leftHandler right rightHandler)"
  by (simp add: matchOfTwo_def start_def)

lemma matchOfTwo_moved:
  "matchOfTwo st \<Longrightarrow> matchOfTwo (st\<lparr> heap := (heap st)(e := update (heap st e)) \<rparr>)"
  using keepsShots_moved [of "heap st" e] by (simp add: matchOfTwo_def keepsShots_def)

lemma matchOfTwo_behaved:
  assumes "matchOfTwo st"
  shows "case updateWithEnvironment e st of
           Threw st' \<Rightarrow> matchOfTwo st'
         | Returned (st', res) \<Rightarrow> matchOfTwo st' \<and> (\<forall>r\<in>set res. shotKind (heap st' r))"
  using keepsShots_updateWithEnvironment [where e = e and st = st] assms
  by (auto simp add: matchOfTwo_def keepsShots_def split: completion.splits)

lemma tick_matchOfTwo:
  assumes "matchOfTwo st"
  shows "matchOfTwo (tick st)"
proof (cases "startTimer st > 0")
  case True
  then have "tick st = st\<lparr> startTimer := startTimer st - 1 \<rparr>"
    by (simp add: tick_def updateEntities_def)
  then show ?thesis using assms by (simp add: matchOfTwo_def)
next
  case False
  let ?bots = "filter (\<lambda>e. isBot (heap st e)) (entities st)"
  let ?loop = "updateLoop (length ?bots > 1) (entities st) st []"
  have loop: "case ?loop of
           Threw st' \<Rightarrow> keepsShots (heap st) (heap st') \<and> entities st' = entities st
         | Returned (st', res) \<Rightarrow>
             keepsShots (heap st) (heap st') \<and> entities st' = entities st
             \<and> (\<forall>r\<in>set res. shotKind (heap st' r))"
    by (rule keepsShots_updateLoop) simp
  show ?thesis
  proof (cases ?loop)
    case (Threw st1)
    then have t: "tick st = st1" using False by (simp add: tick_def updateEntities_def Let_def)
    show ?thesis unfolding t using loop Threw assms by (simp add: matchOfTwo_def keepsShots_def)
  next
    case (Returned p)
    obtain st1 new where p: "p = (st1, new)" by (cases p)
    have k: "keepsShots (heap st) (heap st1)" and e: "entities st1 = entities st"
      and new: "\<forall>r\<in>set new. shotKind (heap st1 r)"
      using loop Returned p by simp_all
    define es where "es = entities st1 @ new"
    define h4 where "h4 = fold enforceBoundsOn es (fold (resolveFor es) es (heap st1))"
    have k4: "keepsShots (heap st1) h4"
      unfolding h4_def by (rule keepsShots_trans [OF keepsShots_pass keepsShots_bounds])
    have hp: "heap (tick st) = h4"
      and ep: "entities (tick st) = filter (\<lambda>e. \<not> dead (h4 e)) es"
      unfolding h4_def es_def using False Returned p
      by (simp_all add: tick_def updateEntities_def Let_def findAndResolveCollisions_def
          enforceBounds_def reap_def checkForEnd_frame)
    have "shotKind (h4 r)" if "r \<in> set es" "2 \<le> r" for r
    proof -
      have "shotKind (heap st1 r)"
        using that assms k e new by (auto simp add: es_def matchOfTwo_def keepsShots_def)
      then show ?thesis using k4 by (simp add: keepsShots_def)
    qed
    then show ?thesis unfolding matchOfTwo_def hp ep by simp
  qed
qed

lemma ticks_matchOfTwo: "matchOfTwo st \<Longrightarrow> matchOfTwo ((tick ^^ n) st)"
  by (induction n) (simp_all add: tick_matchOfTwo)

lemma matchOfTwo_ship:
  assumes "matchOfTwo st" "e \<in> set (entities st)" "isShip (heap st e) \<or> collisionClass (heap st e) = solid"
  shows "e < 2"
proof (rule ccontr)
  assume "\<not> e < 2"
  then have "shotKind (heap st e)" using assms(1,2) by (simp add: matchOfTwo_def)
  then show False using assms(3) by (auto simp add: shotKind_def isProjectile_def isShip_def)
qed

text \<open>
  C5. In a match, for every ship of the live set that requests its environment: the enemy
  descriptor is null when the live set holds no other solid entity; otherwise it is the
  descriptor of the nearest other solid entity of the live set. It copies position and
  radius of that entity. When that entity is moving, the direction and the speed are those
  of the displacement from its position to its position one tick ahead clamped
  component-wise to the arena, not the raw \<open>moveDirection\<close> and \<open>speed\<close>; when it is not
  moving, the direction is null and the speed 0.
\<close>

theorem enemy_is_nearest_other_solid:
  assumes "matchOfTwo st" and "self \<in> set (entities st)" and "isShip (heap st self)"
  shows "((\<forall>e\<in>set (entities st). e \<noteq> self \<longrightarrow> collisionClass (heap st e) \<noteq> solid)
            \<longrightarrow> enemy (getEnvironment st self) = None)
    \<and> ((\<exists>e\<in>set (entities st). e \<noteq> self \<and> collisionClass (heap st e) = solid) \<longrightarrow>
        (\<exists>e\<in>set (entities st). e \<noteq> self \<and> collisionClass (heap st e) = solid
           \<and> (\<forall>e'\<in>set (entities st). e' \<noteq> self \<and> collisionClass (heap st e') = solid \<longrightarrow>
                getDistance (heap st e) (heap st self) \<le> getDistance (heap st e') (heap st self))
           \<and> (\<exists>d. enemy (getEnvironment st self) = Some d
                \<and> x d = x (heap st e) \<and> y d = y (heap st e) \<and> radius d = radius (heap st e)
                \<and> (move (heap st e) \<longrightarrow>
                      EnemyState.direction d =
                        Some (atan2
                          (max (- maxDistance) (min maxDistance
                             (y (heap st e) + speed (heap st e) * sin (moveDirection (heap st e)))) - y (heap st e))
                          (max (- maxDistance) (min maxDistance
                             (x (heap st e) + speed (heap st e) * cos (moveDirection (heap st e)))) - x (heap st e)))
                    \<and> EnemyState.speed d =
                        sqrt ((max (- maxDistance) (min maxDistance
                                 (x (heap st e) + speed (heap st e) * cos (moveDirection (heap st e)))) - x (heap st e))
                            * (max (- maxDistance) (min maxDistance
                                 (x (heap st e) + speed (heap st e) * cos (moveDirection (heap st e)))) - x (heap st e))
                            + (max (- maxDistance) (min maxDistance
                                 (y (heap st e) + speed (heap st e) * sin (moveDirection (heap st e)))) - y (heap st e))
                            * (max (- maxDistance) (min maxDistance
                                 (y (heap st e) + speed (heap st e) * sin (moveDirection (heap st e)))) - y (heap st e))))
                \<and> (\<not> move (heap st e) \<longrightarrow> EnemyState.direction d = None \<and> EnemyState.speed d = 0))))"
proof (cases "find (\<lambda>e. e \<noteq> self \<and> collisionClass (heap st e) = solid) (entities st)")
  case None
  then have "\<forall>e\<in>set (entities st). \<not> (e \<noteq> self \<and> collisionClass (heap st e) = solid)"
    by (simp add: find_None_iff)
  then show ?thesis using None by (auto simp add: enemy_find)
next
  case (Some e)
  have e: "e \<in> set (entities st)" "e \<noteq> self" "collisionClass (heap st e) = solid"
    using Some by (auto simp add: find_Some_iff in_set_conv_nth)
  have s2: "self < 2" by (rule matchOfTwo_ship [OF assms(1,2)]) (simp add: assms(3))
  have e2: "e < 2" by (rule matchOfTwo_ship [OF assms(1) e(1)]) (simp add: e(3))
  have only: "e' = e"
    if "e' \<in> set (entities st)" "e' \<noteq> self" "collisionClass (heap st e') = solid" for e'
  proof -
    have "e' < 2" by (rule matchOfTwo_ship [OF assms(1) that(1)]) (simp add: that(3))
    then show ?thesis using s2 e2 e(2) that(2) by arith
  qed
  have near: "\<forall>e'\<in>set (entities st). e' \<noteq> self \<and> collisionClass (heap st e') = solid \<longrightarrow>
                getDistance (heap st e) (heap st self) \<le> getDistance (heap st e') (heap st self)"
    using only by auto
  have d: "enemy (getEnvironment st self) = Some (enemyStateOf (heap st e))"
    by (simp add: enemy_find Some)
  have fields: "\<exists>d. enemy (getEnvironment st self) = Some d
                \<and> x d = x (heap st e) \<and> y d = y (heap st e) \<and> radius d = radius (heap st e)
                \<and> (move (heap st e) \<longrightarrow>
                      EnemyState.direction d =
                        Some (atan2
                          (max (- maxDistance) (min maxDistance
                             (y (heap st e) + speed (heap st e) * sin (moveDirection (heap st e)))) - y (heap st e))
                          (max (- maxDistance) (min maxDistance
                             (x (heap st e) + speed (heap st e) * cos (moveDirection (heap st e)))) - x (heap st e)))
                    \<and> EnemyState.speed d =
                        sqrt ((max (- maxDistance) (min maxDistance
                                 (x (heap st e) + speed (heap st e) * cos (moveDirection (heap st e)))) - x (heap st e))
                            * (max (- maxDistance) (min maxDistance
                                 (x (heap st e) + speed (heap st e) * cos (moveDirection (heap st e)))) - x (heap st e))
                            + (max (- maxDistance) (min maxDistance
                                 (y (heap st e) + speed (heap st e) * sin (moveDirection (heap st e)))) - y (heap st e))
                            * (max (- maxDistance) (min maxDistance
                                 (y (heap st e) + speed (heap st e) * sin (moveDirection (heap st e)))) - y (heap st e))))
                \<and> (\<not> move (heap st e) \<longrightarrow> EnemyState.direction d = None \<and> EnemyState.speed d = 0)"
    unfolding d
    apply (rule exI [of _ "enemyStateOf (heap st e)"])
    by (simp add: enemyStateOf_fields enforceBoundsOnCoordinate_def)
  have ex: "\<exists>e\<in>set (entities st). e \<noteq> self \<and> collisionClass (heap st e) = solid" using e by blast
  have no: "\<not> (\<forall>e\<in>set (entities st). e \<noteq> self \<longrightarrow> collisionClass (heap st e) \<noteq> solid)" using e by blast
  show ?thesis using e near fields no by blast
qed

text \<open>
  In the duel the first bot sees the second, which would leave the arena at \<open>x = 10.1\<close>: the
  descriptor gives the direction 0 and the speed 0.1 rather than 0.2. The second bot sees
  the first, at rest, with no direction and speed 0.
\<close>

lemma duel_facts:
  "matchOfTwo duelExample"
  "0 \<in> set (entities duelExample)" "isShip (heap duelExample 0)"
  "Suc 0 \<in> set (entities duelExample)" "isShip (heap duelExample (Suc 0))"
  "collisionClass (heap duelExample 0) = solid" "collisionClass (heap duelExample (Suc 0)) = solid"
  "move (heap duelExample (Suc 0))" "\<not> move (heap duelExample 0)"
  "x (heap duelExample (Suc 0)) = 9.9" "y (heap duelExample (Suc 0)) = 0"
  "radius (heap duelExample (Suc 0)) = 1" "x (heap duelExample 0) = - 5"
  by (simp_all add: matchOfTwo_def duelExample_def shotKind_def newShot_def newBot_def
      isProjectile_def isShip_def)

lemma duel_others:
  "e \<in> set (entities duelExample) \<Longrightarrow> e \<noteq> 0 \<Longrightarrow> collisionClass (heap duelExample e) = solid
     \<Longrightarrow> e = Suc 0"
  "e \<in> set (entities duelExample) \<Longrightarrow> e \<noteq> Suc 0 \<Longrightarrow> collisionClass (heap duelExample e) = solid
     \<Longrightarrow> e = 0"
  by (auto simp add: duelExample_def newShot_def newBot_def split: if_splits)

lemma duel_projection:
  "max (- maxDistance) (min maxDistance
     (x (heap duelExample (Suc 0))
      + speed (heap duelExample (Suc 0)) * cos (moveDirection (heap duelExample (Suc 0)))))
   - x (heap duelExample (Suc 0)) = 1 / 10"
  "max (- maxDistance) (min maxDistance
     (y (heap duelExample (Suc 0))
      + speed (heap duelExample (Suc 0)) * sin (moveDirection (heap duelExample (Suc 0)))))
   - y (heap duelExample (Suc 0)) = 0"
  by (simp_all add: duelExample_def newBot_def maxDistance_def)

theorem enemy_is_nearest_other_solid_witness:
  "matchOfTwo duelExample
   \<and> 0 \<in> set (entities duelExample) \<and> isShip (heap duelExample 0)
   \<and> 1 \<in> set (entities duelExample) \<and> collisionClass (heap duelExample 1) = solid
   \<and> move (heap duelExample 1)
   \<and> (\<exists>d. enemy (getEnvironment duelExample 0) = Some d \<and> x d = 9.9 \<and> y d = 0 \<and> radius d = 1
         \<and> EnemyState.direction d = Some 0 \<and> EnemyState.speed d = 1 / 10)
   \<and> isShip (heap duelExample 1) \<and> collisionClass (heap duelExample 0) = solid
   \<and> \<not> move (heap duelExample 0)
   \<and> (\<exists>d. enemy (getEnvironment duelExample 1) = Some d \<and> x d = - 5
         \<and> EnemyState.direction d = None \<and> EnemyState.speed d = 0)"
proof -
  have ex0: "\<exists>e\<in>set (entities duelExample). e \<noteq> 0 \<and> collisionClass (heap duelExample e) = solid"
    using duel_facts(4,7) by blast
  have ex1: "\<exists>e\<in>set (entities duelExample). e \<noteq> Suc 0 \<and> collisionClass (heap duelExample e) = solid"
    using duel_facts(2,6) by blast
  have a0: "atan2 0 (1 / 10) = 0" by (simp add: atan2_def)
  note t0 = enemy_is_nearest_other_solid [OF duel_facts(1) duel_facts(2) duel_facts(3),
      THEN conjunct2, THEN mp, OF ex0]
  note t1 = enemy_is_nearest_other_solid [OF duel_facts(1) duel_facts(4) duel_facts(5),
      THEN conjunct2, THEN mp, OF ex1]
  have d0: "\<exists>d. enemy (getEnvironment duelExample 0) = Some d \<and> x d = 9.9 \<and> y d = 0 \<and> radius d = 1
         \<and> EnemyState.direction d = Some 0 \<and> EnemyState.speed d = 1 / 10"
    apply (rule bexE [OF t0])
    subgoal premises p for e
    proof -
      have e0: "e \<noteq> 0" by (rule p(2) [THEN conjunct1])
      have es: "collisionClass (heap duelExample e) = solid"
        by (rule p(2) [THEN conjunct2, THEN conjunct1])
      have e1: "e = Suc 0" by (rule duel_others(1) [OF p(1) e0 es])
      note dd = p(2) [THEN conjunct2, THEN conjunct2, THEN conjunct2,
          unfolded e1, unfolded duel_projection,
          unfolded a0 sqrt_tenth, unfolded duel_facts(10-12)]
      show ?thesis using dd duel_facts(8) by simp
    qed
    done
  have d1: "\<exists>d. enemy (getEnvironment duelExample (Suc 0)) = Some d \<and> x d = - 5
         \<and> EnemyState.direction d = None \<and> EnemyState.speed d = 0"
    apply (rule bexE [OF t1])
    subgoal premises p for e
    proof -
      have e0: "e \<noteq> Suc 0" by (rule p(2) [THEN conjunct1])
      have es: "collisionClass (heap duelExample e) = solid"
        by (rule p(2) [THEN conjunct2, THEN conjunct1])
      have e1: "e = 0" by (rule duel_others(2) [OF p(1) e0 es])
      note dd = p(2) [THEN conjunct2, THEN conjunct2, THEN conjunct2, unfolded e1 duel_facts(13)]
      show ?thesis using dd duel_facts(9) by auto
    qed
    done
  have f: "matchOfTwo duelExample
   \<and> 0 \<in> set (entities duelExample) \<and> isShip (heap duelExample 0)
   \<and> Suc 0 \<in> set (entities duelExample) \<and> collisionClass (heap duelExample (Suc 0)) = solid
   \<and> move (heap duelExample (Suc 0))
   \<and> isShip (heap duelExample (Suc 0)) \<and> collisionClass (heap duelExample 0) = solid
   \<and> \<not> move (heap duelExample 0)"
    by (simp only: duel_facts simp_thms)
  show ?thesis
    unfolding One_nat_def using f d0 d1 by (simp only: simp_thms)
qed

subsection \<open>The phases of a tick\<close>

lemma updateEntities_combat:
  assumes "\<not> 0 < startTimer st" "isInCombat st"
  shows "updateEntities st =
     (case updateLoop True (entities st) st [] of
        Threw st1 \<Rightarrow> Threw st1
      | Returned (st1, newEntities) \<Rightarrow>
          Returned (reap (enforceBounds (findAndResolveCollisions (appendSpawned st1 newEntities)))))"
proof -
  have c: "length (filter (\<lambda>e. isBot (heap st e)) (entities st)) > 1"
    using assms(2) by (simp add: isInCombat_def)
  show ?thesis
  proof (cases "updateLoop True (entities st) st []")
    case (Threw st1)
    then show ?thesis using assms(1) c by (simp add: updateEntities_def Let_def)
  next
    case (Returned p)
    obtain st1 new where p: "p = (st1, new)" by (cases p)
    show ?thesis using assms(1) c Returned p
      by (simp add: updateEntities_def Let_def checkForEnd_def appendSpawned_def)
  qed
qed

lemma updateWithEnvironment_frame:
  assumes "r \<noteq> e" "r \<noteq> nextRef st"
  shows "case updateWithEnvironment e st of
           Threw st' \<Rightarrow> heap st' r = heap st r \<and> nextRef st \<le> nextRef st'
         | Returned (st', res) \<Rightarrow> heap st' r = heap st r \<and> nextRef st \<le> nextRef st'"
  using assms
  by (simp add: updateWithEnvironment_def Let_def split: completion.splits)

lemma motion_idle:
  assumes "\<forall>e\<in>set es. \<not> move (h e)"
  shows "fold integrateMotionOf es h = h"
  using assms
proof (induction es)
  case Nil
  then show ?case by simp
next
  case (Cons e es)
  then have "update (h e) = h e" by (simp add: update_def)
  then have "integrateMotionOf e h = h" by (simp add: integrateMotionOf_def)
  then show ?case using Cons by simp
qed

lemma integrateMotion_idle:
  assumes "\<forall>e\<in>set (entities st). \<not> move (heap st e)"
  shows "integrateMotion st = st"
  using motion_idle [OF assms] by (simp add: integrateMotion_def)

lemma updateLoop_idle:
  assumes "distinct es" "\<forall>e\<in>set es. e < nextRef st \<and> \<not> move (heap st e)"
  shows "updateLoop True es st newEntities = stepBehaviors es st newEntities"
  using assms
proof (induction es arbitrary: st newEntities)
  case Nil
  then show ?case by simp
next
  case (Cons e es)
  have idle: "update (heap st e) = heap st e" using Cons.prems(2) by (simp add: update_def)
  then have same: "st\<lparr> heap := (heap st)(e := update (heap st e)) \<rparr> = st" by simp
  show ?case
  proof (cases "updateWithEnvironment e st")
    case (Threw st2)
    then show ?thesis by (simp add: same Let_def isScriptable_def)
  next
    case (Returned p)
    obtain st2 res where p: "p = (st2, res)" by (cases p)
    have rest: "\<forall>e'\<in>set es. e' < nextRef st2 \<and> \<not> move (heap st2 e')"
    proof
      fix e' assume e': "e' \<in> set es"
      then have ne: "e' \<noteq> e" using Cons.prems(1) by auto
      have lt: "e' < nextRef st" and idle': "\<not> move (heap st e')"
        using Cons.prems(2) e' by simp_all
      then have "e' \<noteq> nextRef st" by simp
      from updateWithEnvironment_frame [OF ne this] Returned p
      have "heap st2 e' = heap st e'" "nextRef st \<le> nextRef st2" by simp_all
      then show "e' < nextRef st2 \<and> \<not> move (heap st2 e')" using lt idle' by simp
    qed
    have "updateLoop True es st2 (newEntities @ res) = stepBehaviors es st2 (newEntities @ res)"
      by (rule Cons.IH) (use Cons.prems(1) rest in simp_all)
    then show ?thesis using Returned p by (simp add: same Let_def isScriptable_def)
  qed
qed

text \<open>
  C1, as amended. In combat a tick is the composition of five phases over the whole live
  set: one pass that takes the entities in live-set order and, for each, integrates its
  motion and at once runs its behavior step, collecting the spawned entities; appending
  them; collision resolution; bounds enforcement; reaping. It is the six-phase tick of the
  specification when no entity of the live set has its \<open>move\<close> flag set as the tick begins
  (the live set holding distinct allocated references).
\<close>

theorem tick_phases:
  assumes "\<not> 0 < startTimer st" and "isInCombat st"
  shows "updateEntities st =
      (case updateLoop True (entities st) st [] of
         Threw st1 \<Rightarrow> Threw st1
       | Returned (st1, newEntities) \<Rightarrow>
           Returned (reap (enforceBounds (findAndResolveCollisions (appendSpawned st1 newEntities)))))
    \<and> (distinct (entities st)
         \<and> (\<forall>e\<in>set (entities st). e < nextRef st \<and> \<not> move (heap st e))
        \<longrightarrow> updateEntities st = specTick st)"
proof (intro conjI impI)
  show first: "updateEntities st =
      (case updateLoop True (entities st) st [] of
         Threw st1 \<Rightarrow> Threw st1
       | Returned (st1, newEntities) \<Rightarrow>
           Returned (reap (enforceBounds (findAndResolveCollisions (appendSpawned st1 newEntities)))))"
    by (rule updateEntities_combat [OF assms])
  assume idle: "distinct (entities st)
         \<and> (\<forall>e\<in>set (entities st). e < nextRef st \<and> \<not> move (heap st e))"
  then have m: "integrateMotion st = st" by (simp add: integrateMotion_idle)
  have l: "updateLoop True (entities st) st [] = stepBehaviors (entities st) st []"
    using idle by (simp add: updateLoop_idle)
  show "updateEntities st = specTick st"
    unfolding first specTick_def m l ..
qed

lemma resolvePair_keeps_aim: "shootDirection (resolvePair a b h r) = shootDirection (h r)"
  by (simp add: resolvePair_def Let_def collided_def collidedInternal_def isEntity_def)

lemma pass_keeps_aim: "shootDirection (fold (resolveFor es) as h r) = shootDirection (h r)"
proof (rule fold_invariant [where I = "\<lambda>s::nat \<Rightarrow> MovingEntity. shootDirection (s r) = shootDirection (h r)"])
  show "shootDirection (h r) = shootDirection (h r)" ..
next
  fix a and s :: "nat \<Rightarrow> MovingEntity"
  assume s: "shootDirection (s r) = shootDirection (h r)"
  have "shootDirection (fold (resolvePair a) es s r) = shootDirection (h r)"
  proof (rule fold_invariant [where I = "\<lambda>t::nat \<Rightarrow> MovingEntity. shootDirection (t r) = shootDirection (h r)"])
    show "shootDirection (s r) = shootDirection (h r)" by (rule s)
  next
    fix b and t :: "nat \<Rightarrow> MovingEntity"
    assume "shootDirection (t r) = shootDirection (h r)"
    then show "shootDirection (resolvePair a b t r) = shootDirection (h r)"
      by (simp add: resolvePair_keeps_aim)
  qed
  then show "shootDirection (resolveFor es a s r) = shootDirection (h r)"
    using s by (simp add: resolveFor_def)
qed

lemma phases_keep_aim:
  "shootDirection (heap (reap (enforceBounds (findAndResolveCollisions st))) r)
     = shootDirection (heap st r)"
  by (simp add: reap_def enforceBounds_def findAndResolveCollisions_def fold_enforceBoundsOn
      boundedEntity_def pass_keeps_aim)

lemma turret_combat: "\<not> 0 < startTimer turretExample" "isInCombat turretExample"
  by (simp_all add: turretExample_def isInCombat_def isBot_def newBot_def)

lemma turret_tick: "shootDirection (heap (tick turretExample) 0) = 0"
proof -
  obtain st1 new where l: "updateLoop True (entities turretExample) turretExample [] = Returned (st1, new)"
    and a: "shootDirection (heap st1 0) = 0"
    by (simp add: turretExample_def newBot_def updateWithEnvironment_def think_def update_def
        isScriptable_def isBot_def isShip_def getEnvironment_def Let_def atan2_def
        enemyStateOf_fields(1,2,3))
  have "updateEntities turretExample
      = Returned (reap (enforceBounds (findAndResolveCollisions (appendSpawned st1 new))))"
    using updateEntities_combat [OF turret_combat] l by simp
  then have "tick turretExample = reap (enforceBounds (findAndResolveCollisions (appendSpawned st1 new)))"
    by (simp add: tick_def)
  then show ?thesis using a by (simp add: phases_keep_aim appendSpawned_def)
qed

lemma turret_specTick: "shootDirection (heap (specTickState turretExample) 0) = arctan (1 / 25)"
proof -
  obtain st1 new where l: "stepBehaviors (entities turretExample) (integrateMotion turretExample) []
        = Returned (st1, new)"
    and a: "shootDirection (heap st1 0) = arctan (1 / 25)"
    by (simp add: turretExample_def newBot_def updateWithEnvironment_def think_def update_def
        integrateMotion_def integrateMotionOf_def
        isScriptable_def isBot_def isShip_def getEnvironment_def Let_def atan2_def
        enemyStateOf_fields(1,2,3))
  have "specTickState turretExample
      = reap (enforceBounds (findAndResolveCollisions (appendSpawned st1 new)))"
    using l by (simp add: specTickState_def specTick_def)
  then show ?thesis using a by (simp add: phases_keep_aim appendSpawned_def)
qed

text \<open>
  C1 as stated fails: the turret is first in the live set and takes its behavior step
  before the other bot has moved, so it aims at \<open>(5, 0)\<close>, direction 0; in the six-phase
  tick the other bot is at \<open>(5, 0.2)\<close> by then and the turret aims at it.
\<close>

theorem tick_six_phases_counterexample:
  "\<not> 0 < startTimer turretExample \<and> isInCombat turretExample
   \<and> shootDirection (heap (tick turretExample) 0) = 0
   \<and> shootDirection (heap (specTickState turretExample) 0) = arctan (1 / 25)
   \<and> updateEntities turretExample \<noteq> specTick turretExample"
proof -
  have ne: "arctan (1 / 25) \<noteq> (0::real)" by simp
  have "updateEntities turretExample \<noteq> specTick turretExample"
  proof
    assume "updateEntities turretExample = specTick turretExample"
    then have "tick turretExample = specTickState turretExample"
      by (simp add: tick_def specTickState_def)
    then show False using turret_tick turret_specTick ne by simp
  qed
  then show ?thesis using turret_combat turret_tick turret_specTick by simp
qed

lemma standoff_facts:
  "\<not> 0 < startTimer standoffExample" "isInCombat standoffExample"
  "distinct (entities standoffExample)"
  "\<forall>e\<in>set (entities standoffExample). e < nextRef standoffExample \<and> \<not> move (heap standoffExample e)"
  "entities standoffExample = [0, 1]" "nextRef standoffExample = 2"
  "\<not> move (heap standoffExample 0)" "\<not> move (heap standoffExample 1)"
  by (simp_all add: standoffExample_def start_def isInCombat_def isBot_def newBot_def)

theorem tick_phases_witness:
  "\<not> 0 < startTimer standoffExample \<and> isInCombat standoffExample
   \<and> entities standoffExample = [0, 1] \<and> nextRef standoffExample = 2
   \<and> \<not> move (heap standoffExample 0) \<and> \<not> move (heap standoffExample 1)
   \<and> updateEntities standoffExample = specTick standoffExample"
  using tick_phases [OF standoff_facts(1) standoff_facts(2)] standoff_facts
  by blast

end
